theory Spec2Isabelle
  imports Complex_Main "HOL-Library.AList" "HOL-Library.Multiset"
begin

section \<open>Numbers\<close>

text \<open>
  The cell quantities of \<^verbatim>\<open>hexagonal_grid.py\<close> are Python numbers: the integer literals
  \<^verbatim>\<open>0\<close> and \<^verbatim>\<open>1\<close>, the constructor arguments, and the doubles that \<^verbatim>\<open>np.mean\<close> and the
  arithmetic on them return. A value is a real number, an infinity or \<^verbatim>\<open>nan\<close>. The result
  of an operation on numbers is exact when it lies within the range of the doubles, and
  an infinity when its magnitude is beyond the largest double, as a double overflows;
  operations on infinities and \<^verbatim>\<open>nan\<close> follow IEEE 754 (\<^verbatim>\<open>inf - inf\<close> and \<^verbatim>\<open>0 * inf\<close> are
  \<^verbatim>\<open>nan\<close>). Rounding within the range, underflow and the sign of zero are outside the
  model; the constructor arguments are taken to be finite numbers, and \<^verbatim>\<open>/\<close> is the true
  division of Python 3.
\<close>

datatype pyfloat = Num real | PInf | NInf | NaN

definition max_float :: real where
  "max_float = (2 - 1 / 2 ^ 52) * 2 ^ 1023"

definition fl :: "real \<Rightarrow> pyfloat" where
  "fl r = (if max_float < r then PInf else if r < - max_float then NInf else Num r)"

fun fneg :: "pyfloat \<Rightarrow> pyfloat" where
  "fneg (Num a) = Num (- a)"
| "fneg PInf = NInf"
| "fneg NInf = PInf"
| "fneg NaN = NaN"

fun fadd :: "pyfloat \<Rightarrow> pyfloat \<Rightarrow> pyfloat" where
  "fadd (Num a) (Num b) = fl (a + b)"
| "fadd NaN y = NaN"
| "fadd x NaN = NaN"
| "fadd PInf NInf = NaN"
| "fadd NInf PInf = NaN"
| "fadd PInf y = PInf"
| "fadd x PInf = PInf"
| "fadd NInf y = NInf"
| "fadd x NInf = NInf"

definition fsub :: "pyfloat \<Rightarrow> pyfloat \<Rightarrow> pyfloat" where
  "fsub x y = fadd x (fneg y)"

text \<open>The sign of a product with an infinity; \<^verbatim>\<open>0 * inf\<close> is \<^verbatim>\<open>nan\<close>.\<close>

definition signed_inf :: "real \<Rightarrow> pyfloat" where
  "signed_inf a = (if a = 0 then NaN else if 0 < a then PInf else NInf)"

fun fmul :: "pyfloat \<Rightarrow> pyfloat \<Rightarrow> pyfloat" where
  "fmul (Num a) (Num b) = fl (a * b)"
| "fmul NaN y = NaN"
| "fmul x NaN = NaN"
| "fmul (Num a) PInf = signed_inf a"
| "fmul (Num a) NInf = signed_inf (- a)"
| "fmul PInf (Num b) = signed_inf b"
| "fmul NInf (Num b) = signed_inf (- b)"
| "fmul PInf PInf = PInf"
| "fmul NInf NInf = PInf"
| "fmul PInf NInf = NInf"
| "fmul NInf PInf = NInf"

text \<open>\<^verbatim>\<open>x >= 1\<close>: every comparison with \<^verbatim>\<open>nan\<close> is false.\<close>

fun ge_one :: "pyfloat \<Rightarrow> bool" where
  "ge_one (Num a) = (1 \<le> a)"
| "ge_one PInf = True"
| "ge_one NInf = False"
| "ge_one NaN = False"

text \<open>\<^verbatim>\<open>x == y\<close> on numbers: \<^verbatim>\<open>nan\<close> is not equal to anything, itself included.\<close>

fun py_eq :: "pyfloat \<Rightarrow> pyfloat \<Rightarrow> bool" where
  "py_eq (Num a) (Num b) = (a = b)"
| "py_eq PInf PInf = True"
| "py_eq NInf NInf = True"
| "py_eq x y = False"

text \<open>The sum of a list over its count (the count is not 0 where this is used).\<close>

fun div_count :: "pyfloat \<Rightarrow> nat \<Rightarrow> pyfloat" where
  "div_count (Num a) n = Num (a / real n)"
| "div_count PInf n = PInf"
| "div_count NInf n = NInf"
| "div_count NaN n = NaN"

text \<open>\<^verbatim>\<open>np.mean\<close> of a list of numbers: the sum, taken from the left, over the count, and
  \<^verbatim>\<open>nan\<close> for the empty list.\<close>

definition np_mean :: "pyfloat list \<Rightarrow> pyfloat" where
  "np_mean xs = (if xs = [] then NaN else div_count (fold fadd xs (Num 0)) (length xs))"

section \<open>Outcomes\<close>

text \<open>
  A call returns a value, raises \<^verbatim>\<open>KeyError\<close> (a dictionary read at a missing
  coordinate), or leaves through \<^verbatim>\<open>sys.exit()\<close> after the effects it has performed:
  the line printed with the frozen count, \<^verbatim>\<open>beta\<close> and \<^verbatim>\<open>gamma\<close>, and the image saved
  under a name made of \<^verbatim>\<open>beta\<close> and \<^verbatim>\<open>gamma\<close> (the window library is taken to save the
  image without an error of its own).
\<close>

datatype effect = Print nat real real | SaveImage real real

datatype 'a outcome = Returned 'a | KeyError | Exited "effect list"

fun and_then :: "'a outcome \<Rightarrow> ('a \<Rightarrow> 'b outcome) \<Rightarrow> 'b outcome" where
  "and_then (Returned x) f = f x"
| "and_then KeyError f = KeyError"
| "and_then (Exited es) f = Exited es"

section \<open>Cells and the lattice\<close>

record Hexagon =
  u :: pyfloat
  v :: pyfloat
  state :: pyfloat
  mean_u :: pyfloat
  receptive :: bool

type_synonym coord = "int \<times> int"

text \<open>
  \<^verbatim>\<open>self.lattice\<close> is a Python dictionary, which keeps its keys in insertion order: an
  association list, read with \<^const>\<open>map_of\<close> and written with \<^const>\<open>AList.update\<close>
  (a new key goes to the end, an old key keeps its place). \<^verbatim>\<open>self.size\<close> is the field
  \<open>lattice_size\<close>, after the constructor's argument.
\<close>

record CrystalLattice =
  lattice_size :: int
  lattice :: "(coord \<times> Hexagon) list"
  alpha :: real
  beta :: real
  gamma :: real

definition keys :: "CrystalLattice \<Rightarrow> coord list" where
  "keys L = map fst (lattice L)"

definition create_cell :: "int \<Rightarrow> int \<Rightarrow> CrystalLattice \<Rightarrow> CrystalLattice" where
  "create_cell q r L =
     (if q + r > lattice_size L \<or> q + r < - lattice_size L then L
      else if q \<noteq> 0 \<or> r \<noteq> 0 then
        L\<lparr>lattice := AList.update (r, q)
             \<lparr>u = Num (beta L), v = Num 0, state = Num (beta L), mean_u = Num 0,
              receptive = False\<rparr> (lattice L)\<rparr>
      else
        L\<lparr>lattice := AList.update (r, q)
             \<lparr>u = Num 0, v = Num 1, state = Num 1, mean_u = Num 0, receptive = False\<rparr>
             (lattice L)\<rparr>)"

definition create_hexagonal_lattice :: "CrystalLattice \<Rightarrow> CrystalLattice" where
  "create_hexagonal_lattice L =
     fold (\<lambda>q. fold (\<lambda>r. create_cell q r) [- lattice_size L .. lattice_size L])
       [- lattice_size L .. lattice_size L] L"

text \<open>\<^verbatim>\<open>CrystalLattice(lattice_size, alpha, beta, gamma)\<close>.\<close>

definition CrystalLattice_init :: "int \<Rightarrow> real \<Rightarrow> real \<Rightarrow> real \<Rightarrow> CrystalLattice" where
  "CrystalLattice_init n a b g =
     create_hexagonal_lattice
       \<lparr>lattice_size = n, lattice = [], alpha = a, beta = b, gamma = g\<rparr>"

definition get_neighbours :: "CrystalLattice \<Rightarrow> coord \<Rightarrow> coord list" where
  "get_neighbours L c =
     (case c of (q, r) \<Rightarrow>
        filter (\<lambda>qr. qr \<in> set (keys L))
          [(q, r - 1), (q + 1, r - 1), (q + 1, r), (q, r + 1), (q - 1, r + 1), (q - 1, r)])"

definition is_edge :: "CrystalLattice \<Rightarrow> coord \<Rightarrow> bool" where
  "is_edge L c =
     (if fst c \<in> set [lattice_size L, - lattice_size L]
         \<or> snd c \<in> set [lattice_size L, - lattice_size L]
      then True else False)"

text \<open>
  \<^verbatim>\<open>self.lattice[qr]\<close> at a coordinate that \<^const>\<open>get_neighbours\<close> has found in the
  lattice: the read cannot fail there, and \<open>cell_at\<close> is used at such coordinates only.
\<close>

definition cell_at :: "CrystalLattice \<Rightarrow> coord \<Rightarrow> Hexagon" where
  "cell_at L c = the (map_of (lattice L) c)"

definition umean_neighbours :: "CrystalLattice \<Rightarrow> coord \<Rightarrow> pyfloat" where
  "umean_neighbours L c = np_mean (map (\<lambda>qr. u (cell_at L qr)) (get_neighbours L c))"

definition if_receptive :: "CrystalLattice \<Rightarrow> coord \<Rightarrow> bool outcome" where
  "if_receptive L c =
     (case map_of (lattice L) c of
        None \<Rightarrow> KeyError
      | Some h \<Rightarrow>
          if ge_one (state h) then Returned True
          else if list_ex (\<lambda>hex. ge_one (state (cell_at L hex))) (get_neighbours L c)
          then Returned True
          else Returned False)"

section \<open>The termination detector\<close>

text \<open>
  The coordinates of the branch ends are written as a Python set literal, so equal
  tuples are one element; the loop over a set visits its elements in no fixed order,
  and a missing one raises \<^verbatim>\<open>KeyError\<close> before anything else happens.
  \<^verbatim>\<open>frozen_list\<close> is a local list, \<^verbatim>\<open>[0]\<close> with the count appended.
\<close>

definition branch_end_list :: "int \<Rightarrow> coord list" where
  "branch_end_list n =
     [(- (n - 1), n - 1), (n - 1, - (n - 1)), (0, n - 1), (0, - (n - 1)),
      (n - 1, 0), (- (n - 1), 0)]"

definition branch_ends :: "int \<Rightarrow> coord list" where
  "branch_ends n = remdups (branch_end_list n)"

definition ends_missing :: "CrystalLattice \<Rightarrow> bool" where
  "ends_missing L = list_ex (\<lambda>c. map_of (lattice L) c = None) (branch_ends (lattice_size L))"

definition frozen_ends :: "CrystalLattice \<Rightarrow> nat" where
  "frozen_ends L =
     length (filter (\<lambda>c. ge_one (state (cell_at L c))) (branch_ends (lattice_size L)))"

definition count_frozen :: "CrystalLattice \<Rightarrow> nat" where
  "count_frozen L = length (filter (\<lambda>hex. ge_one (state (cell_at L hex))) (keys L))"

definition all_ends_frozen :: "CrystalLattice \<Rightarrow> bool outcome" where
  "all_ends_frozen L =
     (if ends_missing L then KeyError
      else
        let frozen = count_frozen L;
            frozen_list = [0] @ [frozen]
        in if frozen_ends L = 6 \<or> last frozen_list = last (butlast frozen_list)
           then Exited [Print frozen (beta L) (gamma L), SaveImage (beta L) (gamma L)]
           else Returned False)"

section \<open>One step\<close>

text \<open>
  \<^verbatim>\<open>self.lattice[hex].field = value\<close>: the cell object at \<open>hex\<close> is changed in place, the
  dictionary keeps its keys and their order.
\<close>

definition modify_cell ::
  "coord \<Rightarrow> (Hexagon \<Rightarrow> Hexagon) \<Rightarrow> CrystalLattice \<Rightarrow> CrystalLattice outcome" where
  "modify_cell hex f L =
     (case map_of (lattice L) hex of
        None \<Rightarrow> KeyError
      | Some h \<Rightarrow> Returned (L\<lparr>lattice := AList.update hex (f h) (lattice L)\<rparr>))"

text \<open>The three loops of \<^verbatim>\<open>diffusion\<close>, each over a list of coordinates.\<close>

fun mean_loop :: "coord list \<Rightarrow> CrystalLattice \<Rightarrow> CrystalLattice outcome" where
  "mean_loop [] L = Returned L"
| "mean_loop (hex # ks) L =
     and_then (modify_cell hex (\<lambda>h. h\<lparr>mean_u := umean_neighbours L hex\<rparr>) L) (mean_loop ks)"

fun reset_loop :: "coord list \<Rightarrow> CrystalLattice \<Rightarrow> CrystalLattice outcome" where
  "reset_loop [] L = Returned L"
| "reset_loop (hex # ks) L =
     and_then (if_receptive L hex) (\<lambda>b.
       and_then
         (if b then modify_cell hex (\<lambda>h. h\<lparr>u := Num 0, v := state h, receptive := True\<rparr>) L
          else modify_cell hex (\<lambda>h. h\<lparr>u := state h, v := Num 0\<rparr>) L)
         (reset_loop ks))"

definition update_cell :: "CrystalLattice \<Rightarrow> Hexagon \<Rightarrow> Hexagon" where
  "update_cell L h =
     (let h1 = h\<lparr>u := fadd (u h) (fmul (Num (alpha L / 2)) (fsub (mean_u h) (u h)))\<rparr>;
          h2 = (if receptive h1 then h1\<lparr>v := fadd (v h1) (Num (gamma L))\<rparr> else h1)
      in h2\<lparr>state := fadd (u h2) (v h2)\<rparr>)"

fun update_loop :: "coord list \<Rightarrow> CrystalLattice \<Rightarrow> CrystalLattice outcome" where
  "update_loop [] L = Returned L"
| "update_loop (hex # ks) L = and_then (modify_cell hex (update_cell L) L) (update_loop ks)"

text \<open>
  \<^verbatim>\<open>diffusion\<close> mutates the lattice in place and returns nothing; the model returns the
  lattice. Each loop runs over \<^verbatim>\<open>self.lattice.keys()\<close> as it is when the loop starts.
\<close>

definition diffusion :: "CrystalLattice \<Rightarrow> CrystalLattice outcome" where
  "diffusion L =
     and_then (all_ends_frozen L) (\<lambda>stop.
       if stop then Returned L
       else
         and_then (mean_loop (keys L) L) (\<lambda>L1.
         and_then (reset_loop (keys L1) L1) (\<lambda>L2.
         update_loop (keys L2) L2)))"

text \<open>The caller's loop: \<open>k\<close> calls of \<^verbatim>\<open>diffusion\<close> in a row.\<close>

fun steps :: "nat \<Rightarrow> CrystalLattice \<Rightarrow> CrystalLattice outcome" where
  "steps 0 L = Returned L"
| "steps (Suc k) L = and_then (steps k L) diffusion"

section \<open>Auxiliary definitions\<close>

subsection \<open>Values as Python compares them\<close>

text \<open>\<^verbatim>\<open>x >= 0\<close> and \<^verbatim>\<open>x <= y\<close> on numbers.\<close>

fun nonneg :: "pyfloat \<Rightarrow> bool" where
  "nonneg (Num a) = (0 \<le> a)"
| "nonneg PInf = True"
| "nonneg NInf = False"
| "nonneg NaN = False"

fun py_le :: "pyfloat \<Rightarrow> pyfloat \<Rightarrow> bool" where
  "py_le (Num a) (Num b) = (a \<le> b)"
| "py_le NaN y = False"
| "py_le x NaN = False"
| "py_le NInf y = True"
| "py_le x PInf = True"
| "py_le x y = False"

subsection \<open>The constructed lattice, row by row\<close>

text \<open>
  The cell that the constructor stores under \<open>(r, q)\<close>, the test that keeps \<open>(r, q)\<close> (the
  negation of the test that skips a corner), the entries that one pass of the inner loop
  appends, and the hexagon of all coordinates that are kept.
\<close>

definition initial_cell :: "real \<Rightarrow> int \<Rightarrow> int \<Rightarrow> Hexagon" where
  "initial_cell b q r =
     (if q \<noteq> 0 \<or> r \<noteq> 0
      then \<lparr>u = Num b, v = Num 0, state = Num b, mean_u = Num 0, receptive = False\<rparr>
      else \<lparr>u = Num 0, v = Num 1, state = Num 1, mean_u = Num 0, receptive = False\<rparr>)"

definition in_row :: "int \<Rightarrow> int \<Rightarrow> int \<Rightarrow> bool" where
  "in_row n q r = (\<not> (q + r > n \<or> q + r < - n))"

definition row_cells :: "int \<Rightarrow> real \<Rightarrow> int \<Rightarrow> (coord \<times> Hexagon) list" where
  "row_cells n b q = map (\<lambda>r. ((r, q), initial_cell b q r)) (filter (in_row n q) [- n .. n])"

definition in_hexagon :: "int \<Rightarrow> coord \<Rightarrow> bool" where
  "in_hexagon n c =
     (- n \<le> fst c \<and> fst c \<le> n \<and> - n \<le> snd c \<and> snd c \<le> n
      \<and> - n \<le> fst c + snd c \<and> fst c + snd c \<le> n)"

subsection \<open>A step as a map over the cells\<close>

text \<open>
  A change of the values stored under the keys in \<open>S\<close>, and under all keys; the
  classification of \<^const>\<open>if_receptive\<close> as a boolean; what the second loop does to one
  cell, what a whole step does to one cell, and the lattice after a step that the
  detector lets pass.
\<close>

definition upd_on ::
  "coord set \<Rightarrow> (coord \<Rightarrow> Hexagon \<Rightarrow> Hexagon) \<Rightarrow> (coord \<times> Hexagon) list
   \<Rightarrow> (coord \<times> Hexagon) list" where
  "upd_on S F al = map (\<lambda>(k, h). (k, if k \<in> S then F k h else h)) al"

definition map_cells ::
  "(coord \<Rightarrow> Hexagon \<Rightarrow> Hexagon) \<Rightarrow> (coord \<times> Hexagon) list \<Rightarrow> (coord \<times> Hexagon) list" where
  "map_cells F al = map (\<lambda>(k, h). (k, F k h)) al"

definition receptive_now :: "CrystalLattice \<Rightarrow> coord \<Rightarrow> bool" where
  "receptive_now L c =
     (ge_one (state (cell_at L c))
      \<or> list_ex (\<lambda>hex. ge_one (state (cell_at L hex))) (get_neighbours L c))"

definition reset_cell :: "bool \<Rightarrow> Hexagon \<Rightarrow> Hexagon" where
  "reset_cell b h =
     (if b then h\<lparr>u := Num 0, v := state h, receptive := True\<rparr>
      else h\<lparr>u := state h, v := Num 0\<rparr>)"

definition step_cell :: "CrystalLattice \<Rightarrow> coord \<Rightarrow> Hexagon \<Rightarrow> Hexagon" where
  "step_cell L c h =
     update_cell L (reset_cell (receptive_now L c) (h\<lparr>mean_u := umean_neighbours L c\<rparr>))"

definition next_lattice :: "CrystalLattice \<Rightarrow> CrystalLattice" where
  "next_lattice L = L\<lparr>lattice := map_cells (step_cell L) (lattice L)\<rparr>"

subsection \<open>Runs\<close>

text \<open>
  The lattice after \<open>k\<close> steps, when all of them complete; what the detector returns, and
  the frozen count it sees, when it is called after \<open>k\<close> steps.
\<close>

definition lattice_after :: "nat \<Rightarrow> CrystalLattice \<Rightarrow> CrystalLattice" where
  "lattice_after k L = (case steps k L of Returned L' \<Rightarrow> L' | KeyError \<Rightarrow> L | Exited es \<Rightarrow> L)"

definition detector_after :: "nat \<Rightarrow> CrystalLattice \<Rightarrow> bool outcome" where
  "detector_after k L = and_then (steps k L) all_ends_frozen"

definition count_after :: "nat \<Rightarrow> CrystalLattice \<Rightarrow> nat outcome" where
  "count_after k L = and_then (steps k L) (\<lambda>L'. Returned (count_frozen L'))"

text \<open>
  \<^verbatim>\<open>diffusion\<close> with each loop run over a list of coordinates of its own (the code runs
  all three over the dictionary's keys), and a run in which the \<open>i\<close>-th step visits the
  cells in the order \<open>ks1 i\<close> in its first loop, \<open>ks2 i\<close> in its second and \<open>ks3 i\<close> in its
  third.
\<close>

definition diffusion_on ::
  "coord list \<Rightarrow> coord list \<Rightarrow> coord list \<Rightarrow> CrystalLattice \<Rightarrow> CrystalLattice outcome" where
  "diffusion_on ks1 ks2 ks3 L =
     and_then (all_ends_frozen L) (\<lambda>stop.
       if stop then Returned L
       else
         and_then (mean_loop ks1 L) (\<lambda>L1.
         and_then (reset_loop ks2 L1) (\<lambda>L2.
         update_loop ks3 L2)))"

fun steps_on ::
  "(nat \<Rightarrow> coord list) \<Rightarrow> (nat \<Rightarrow> coord list) \<Rightarrow> (nat \<Rightarrow> coord list) \<Rightarrow> nat
   \<Rightarrow> CrystalLattice \<Rightarrow> CrystalLattice outcome" where
  "steps_on ks1 ks2 ks3 0 L = Returned L"
| "steps_on ks1 ks2 ks3 (Suc k) L =
     and_then (steps_on ks1 ks2 ks3 k L) (diffusion_on (ks1 k) (ks2 k) (ks3 k))"

subsection \<open>Invariants of runs\<close>

text \<open>
  A lattice in which the keys are distinct and every cell has a neighbour in the
  lattice.
\<close>

definition well_formed :: "CrystalLattice \<Rightarrow> bool" where
  "well_formed L =
     (distinct (keys L) \<and> (\<forall>c\<in>set (keys L). get_neighbours L c \<noteq> []))"

text \<open>
  The state of a lattice under parameters \<open>0 \<le> alpha \<le> 2\<close> and \<open>gamma \<ge> 0\<close>: every \<open>u\<close> is a
  number between 0 and the bound \<open>B\<close>, no state is negative or \<^verbatim>\<open>nan\<close>, and a cell whose
  flag is set is receptive now.
\<close>

definition grown :: "real \<Rightarrow> CrystalLattice \<Rightarrow> bool" where
  "grown B L =
     (well_formed L \<and> 0 \<le> alpha L \<and> alpha L \<le> 2 \<and> 0 \<le> gamma L
      \<and> (\<forall>(c, h)\<in>set (lattice L).
            (\<exists>x. u h = Num x \<and> 0 \<le> x \<and> x \<le> B)
            \<and> nonneg (state h) \<and> (receptive h \<longrightarrow> receptive_now L c)))"

text \<open>
  A lattice with nothing to diffuse or deposit (\<^verbatim>\<open>alpha = 0\<close>, \<^verbatim>\<open>gamma = 0\<close>) whose cells have the
  states they were constructed with, and in which every \<open>u\<close> is a number between
  \<open>min b 0\<close> and \<open>max b 0\<close>.
\<close>

definition still :: "int \<Rightarrow> real \<Rightarrow> CrystalLattice \<Rightarrow> bool" where
  "still n b L =
     (well_formed L \<and> alpha L = 0 \<and> gamma L = 0 \<and> lattice_size L = n
      \<and> keys L = keys (CrystalLattice_init n 0 b 0)
      \<and> (\<forall>c\<in>set (keys L).
            state (cell_at L c) = state (cell_at (CrystalLattice_init n 0 b 0) c)
            \<and> (\<exists>x. u (cell_at L c) = Num x \<and> min b 0 \<le> x \<and> x \<le> max b 0)))"

subsection \<open>A lattice on which cells thaw\<close>

text \<open>
  \<^verbatim>\<open>CrystalLattice(3, -4, 0.25, 0.5)\<close>: the constructor accepts a negative \<^verbatim>\<open>alpha\<close>, with which
  frozen cells can thaw.
\<close>

definition thaw_lattice :: CrystalLattice where
  "thaw_lattice = CrystalLattice_init 3 (- 4) (1/4) (1/2)"

subsection \<open>A lattice on which a sum overflows\<close>

text \<open>
  \<^verbatim>\<open>CrystalLattice(1, 0, 1e308, 0)\<close>: the sum of two of the cells' \<open>u\<close> is beyond the largest
  double.
\<close>

definition overflow_lattice :: CrystalLattice where
  "overflow_lattice = CrystalLattice_init 1 0 (10 ^ 308) 0"

section \<open>Cell-wise updates\<close>

lemma keys_upd_on [simp]: "map fst (upd_on S F al) = map fst al"
  by (induction al) (auto simp: upd_on_def)

lemma upd_on_empty [simp]: "upd_on {} F al = al"
  by (induction al) (auto simp: upd_on_def)

lemma map_of_upd_on:
  "map_of (upd_on S F al) k = map_option (\<lambda>h. if k \<in> S then F k h else h) (map_of al k)"
  by (induction al) (auto simp: upd_on_def)

lemma upd_on_cong:
  "(\<And>k h. k \<in> S \<Longrightarrow> (k, h) \<in> set al \<Longrightarrow> F k h = G k h) \<Longrightarrow> upd_on S F al = upd_on S G al"
  by (induction al) (auto simp: upd_on_def)

lemma upd_on_upd_on:
  "S \<inter> T = {} \<Longrightarrow> upd_on S F (upd_on T F al) = upd_on (S \<union> T) F al"
  by (induction al) (auto simp: upd_on_def)

lemma update_upd_on:
  "distinct (map fst al) \<Longrightarrow> map_of al k = Some h \<Longrightarrow>
   AList.update k (f h) al = upd_on {k} (\<lambda>_. f) al"
proof (induction al)
  case Nil then show ?case by simp
next
  case (Cons p al)
  show ?case
  proof (cases "fst p = k")
    case True
    with Cons.prems have "snd p = h" by (cases p) auto
    moreover from True Cons.prems have "k \<notin> fst ` set al" by auto
    then have "upd_on {k} (\<lambda>_. f) al = al"
      by (induction al) (auto simp: upd_on_def)
    ultimately show ?thesis using True by (cases p) (auto simp: upd_on_def)
  next
    case False
    with Cons show ?thesis by (cases p) (auto simp: upd_on_def)
  qed
qed

lemma modify_cell_upd_on:
  assumes "distinct (keys L)" "hex \<in> set (keys L)"
  shows "modify_cell hex f L = Returned (L\<lparr>lattice := upd_on {hex} (\<lambda>_. f) (lattice L)\<rparr>)"
proof -
  from assms(2) obtain h where h: "map_of (lattice L) hex = Some h"
    by (metis keys_def map_of_eq_None_iff not_Some_eq set_map)
  with assms(1) show ?thesis
    by (simp add: modify_cell_def keys_def update_upd_on)
qed

lemma keys_lattice_update [simp]: "keys (L\<lparr>lattice := upd_on S F (lattice L)\<rparr>) = keys L"
  by (simp add: keys_def)

lemma in_keys_map_of: "c \<in> set (keys L) \<Longrightarrow> \<exists>h. map_of (lattice L) c = Some h"
  by (metis keys_def map_of_eq_None_iff not_Some_eq set_map)

lemma get_neighbours_in_keys: "qr \<in> set (get_neighbours L c) \<Longrightarrow> qr \<in> set (keys L)"
  by (cases c) (auto simp: get_neighbours_def simp del: filter.simps)

lemma get_neighbours_upd_on [simp]:
  "get_neighbours (L\<lparr>lattice := upd_on S F (lattice L)\<rparr>) c = get_neighbours L c"
  by (simp add: get_neighbours_def)

lemma cell_at_upd_on:
  "c \<in> set (keys L) \<Longrightarrow>
   cell_at (L\<lparr>lattice := upd_on S F (lattice L)\<rparr>) c
     = (if c \<in> S then F c (cell_at L c) else cell_at L c)"
  by (auto simp: cell_at_def map_of_upd_on dest: in_keys_map_of)

lemma umean_neighbours_upd_on:
  assumes "\<And>k h. u (F k h) = u h"
  shows "umean_neighbours (L\<lparr>lattice := upd_on S F (lattice L)\<rparr>) c = umean_neighbours L c"
proof -
  have "map (\<lambda>qr. u (cell_at (L\<lparr>lattice := upd_on S F (lattice L)\<rparr>) qr)) (get_neighbours L c)
        = map (\<lambda>qr. u (cell_at L qr)) (get_neighbours L c)"
    by (rule map_cong) (auto simp: cell_at_upd_on assms dest: get_neighbours_in_keys)
  then show ?thesis unfolding umean_neighbours_def get_neighbours_upd_on by (rule arg_cong)
qed

lemma receptive_now_upd_on:
  assumes "\<And>k h. state (F k h) = state h" and "c \<in> set (keys L)"
  shows "receptive_now (L\<lparr>lattice := upd_on S F (lattice L)\<rparr>) c = receptive_now L c"
proof -
  have eq: "state (cell_at (L\<lparr>lattice := upd_on S F (lattice L)\<rparr>) hex) = state (cell_at L hex)"
    if "hex \<in> set (get_neighbours L c)" for hex
    using get_neighbours_in_keys [OF that] by (simp add: cell_at_upd_on assms)
  have "list_ex (\<lambda>hex. ge_one (state (cell_at (L\<lparr>lattice := upd_on S F (lattice L)\<rparr>) hex)))
          (get_neighbours L c)
        = list_ex (\<lambda>hex. ge_one (state (cell_at L hex))) (get_neighbours L c)"
    unfolding list_ex_iff using eq by auto
  moreover have "state (cell_at (L\<lparr>lattice := upd_on S F (lattice L)\<rparr>) c) = state (cell_at L c)"
    using assms by (simp add: cell_at_upd_on)
  ultimately show ?thesis unfolding receptive_now_def get_neighbours_upd_on by (simp only:)
qed

lemma reset_cell_True: "reset_cell True = (\<lambda>h. h\<lparr>u := Num 0, v := state h, receptive := True\<rparr>)"
  by (rule ext) (simp add: reset_cell_def)

lemma reset_cell_False: "reset_cell False = (\<lambda>h. h\<lparr>u := state h, v := Num 0\<rparr>)"
  by (rule ext) (simp add: reset_cell_def)

lemma if_receptive_now:
  "c \<in> set (keys L) \<Longrightarrow> if_receptive L c = Returned (receptive_now L c)"
  by (auto simp: if_receptive_def receptive_now_def cell_at_def dest: in_keys_map_of)

lemma upd_on_step:
  assumes "hex \<notin> S" and "\<And>h. G hex h = f h"
  shows "upd_on S G (upd_on {hex} (\<lambda>_. f) al) = upd_on (insert hex S) G al"
  using assms by (induction al) (auto simp: upd_on_def)

lemma mean_loop_upd_on:
  "distinct (keys L) \<Longrightarrow> distinct ks \<Longrightarrow> set ks \<subseteq> set (keys L) \<Longrightarrow>
   mean_loop ks L
     = Returned (L\<lparr>lattice := upd_on (set ks) (\<lambda>k h. h\<lparr>mean_u := umean_neighbours L k\<rparr>) (lattice L)\<rparr>)"
proof (induction ks arbitrary: L)
  case Nil
  then show ?case by simp
next
  case (Cons hex ks)
  let ?f = "\<lambda>h. h\<lparr>mean_u := umean_neighbours L hex\<rparr>"
  let ?L1 = "L\<lparr>lattice := upd_on {hex} (\<lambda>_. ?f) (lattice L)\<rparr>"
  have m: "modify_cell hex ?f L = Returned ?L1"
    using Cons.prems by (simp add: modify_cell_upd_on)
  have um: "umean_neighbours ?L1 k = umean_neighbours L k" for k
    by (rule umean_neighbours_upd_on) simp
  have "mean_loop ks ?L1
        = Returned (?L1\<lparr>lattice := upd_on (set ks) (\<lambda>k h. h\<lparr>mean_u := umean_neighbours ?L1 k\<rparr>) (lattice ?L1)\<rparr>)"
    using Cons.prems by (intro Cons.IH) auto
  also have "\<dots> = Returned (L\<lparr>lattice := upd_on (set (hex # ks)) (\<lambda>k h. h\<lparr>mean_u := umean_neighbours L k\<rparr>) (lattice L)\<rparr>)"
    using Cons.prems by (simp add: um upd_on_step)
  finally show ?case using m by simp
qed

lemma reset_loop_upd_on:
  "distinct (keys L) \<Longrightarrow> distinct ks \<Longrightarrow> set ks \<subseteq> set (keys L) \<Longrightarrow>
   reset_loop ks L
     = Returned (L\<lparr>lattice := upd_on (set ks) (\<lambda>k. reset_cell (receptive_now L k)) (lattice L)\<rparr>)"
proof (induction ks arbitrary: L)
  case Nil
  then show ?case by simp
next
  case (Cons hex ks)
  let ?f = "reset_cell (receptive_now L hex)"
  let ?L1 = "L\<lparr>lattice := upd_on {hex} (\<lambda>_. ?f) (lattice L)\<rparr>"
  have r: "if_receptive L hex = Returned (receptive_now L hex)"
    using Cons.prems by (simp add: if_receptive_now)
  have m: "(if receptive_now L hex
            then modify_cell hex (\<lambda>h. h\<lparr>u := Num 0, v := state h, receptive := True\<rparr>) L
            else modify_cell hex (\<lambda>h. h\<lparr>u := state h, v := Num 0\<rparr>) L) = Returned ?L1"
    using Cons.prems by (simp add: modify_cell_upd_on reset_cell_True reset_cell_False)
  have rn: "k \<in> set (keys L) \<Longrightarrow> receptive_now ?L1 k = receptive_now L k" for k
    by (rule receptive_now_upd_on) (simp_all add: reset_cell_def)
  have "reset_loop ks ?L1
        = Returned (?L1\<lparr>lattice := upd_on (set ks) (\<lambda>k. reset_cell (receptive_now ?L1 k)) (lattice ?L1)\<rparr>)"
    using Cons.prems by (intro Cons.IH) auto
  also have "upd_on (set ks) (\<lambda>k. reset_cell (receptive_now ?L1 k)) (lattice ?L1)
             = upd_on (set ks) (\<lambda>k. reset_cell (receptive_now L k)) (lattice ?L1)"
    using Cons.prems by (intro upd_on_cong) (auto simp: rn)
  also have "Returned (?L1\<lparr>lattice := upd_on (set ks) (\<lambda>k. reset_cell (receptive_now L k)) (lattice ?L1)\<rparr>)
     = Returned (L\<lparr>lattice := upd_on (set (hex # ks)) (\<lambda>k. reset_cell (receptive_now L k)) (lattice L)\<rparr>)"
    using Cons.prems by (simp add: upd_on_step)
  finally show ?case using r m by simp
qed

lemma update_cell_lattice [simp]:
  "update_cell (L\<lparr>lattice := al\<rparr>) = update_cell L"
  by (rule ext) (simp add: update_cell_def Let_def)

lemma update_loop_upd_on:
  "distinct (keys L) \<Longrightarrow> distinct ks \<Longrightarrow> set ks \<subseteq> set (keys L) \<Longrightarrow>
   update_loop ks L
     = Returned (L\<lparr>lattice := upd_on (set ks) (\<lambda>k. update_cell L) (lattice L)\<rparr>)"
proof (induction ks arbitrary: L)
  case Nil
  then show ?case by simp
next
  case (Cons hex ks)
  let ?L1 = "L\<lparr>lattice := upd_on {hex} (\<lambda>_. update_cell L) (lattice L)\<rparr>"
  have m: "modify_cell hex (update_cell L) L = Returned ?L1"
    using Cons.prems by (simp add: modify_cell_upd_on)
  have "update_loop ks ?L1
        = Returned (?L1\<lparr>lattice := upd_on (set ks) (\<lambda>k. update_cell ?L1) (lattice ?L1)\<rparr>)"
    using Cons.prems by (intro Cons.IH) auto
  also have "\<dots> = Returned (L\<lparr>lattice := upd_on (set (hex # ks)) (\<lambda>k. update_cell L) (lattice L)\<rparr>)"
    using Cons.prems by (simp add: upd_on_step)
  finally show ?case using m by simp
qed

lemma upd_on_all:
  "set (map fst al) \<subseteq> S \<Longrightarrow> upd_on S F al = map_cells F al"
  by (induction al) (auto simp: upd_on_def map_cells_def)

lemma map_cells_three:
  "(\<And>k h. (k, h) \<in> set al \<Longrightarrow> G k h = F3 k (F2 k (F1 k h))) \<Longrightarrow>
   map_cells F3 (map_cells F2 (map_cells F1 al)) = map_cells G al"
  by (induction al) (auto simp: map_cells_def)

lemma keys_map_cells [simp]: "map fst (map_cells F al) = map fst al"
  by (induction al) (auto simp: map_cells_def)

lemma map_of_map_cells:
  "map_of (map_cells F al) k = map_option (F k) (map_of al k)"
  by (induction al) (auto simp: map_cells_def)

lemma all_ends_frozen_cases:
  "all_ends_frozen L = KeyError
   \<or> all_ends_frozen L = Exited [Print (count_frozen L) (beta L) (gamma L), SaveImage (beta L) (gamma L)]
   \<or> all_ends_frozen L = Returned False"
  by (simp add: all_ends_frozen_def Let_def)

lemma loops_chain:
  assumes d: "distinct (keys L)"
    and k1: "distinct ks1" "set ks1 = set (keys L)"
    and k2: "distinct ks2" "set ks2 = set (keys L)"
    and k3: "distinct ks3" "set ks3 = set (keys L)"
  shows "\<exists>L1 L2. mean_loop ks1 L = Returned L1 \<and> keys L1 = keys L
           \<and> reset_loop ks2 L1 = Returned L2 \<and> keys L2 = keys L
           \<and> update_loop ks3 L2 = Returned (next_lattice L)"
proof -
  define F1 :: "coord \<Rightarrow> Hexagon \<Rightarrow> Hexagon"
    where "F1 = (\<lambda>k h. h\<lparr>mean_u := umean_neighbours L k\<rparr>)"
  define L1 where "L1 = L\<lparr>lattice := upd_on (set ks1) F1 (lattice L)\<rparr>"
  define F2 :: "coord \<Rightarrow> Hexagon \<Rightarrow> Hexagon"
    where "F2 = (\<lambda>k. reset_cell (receptive_now L k))"
  define L2 where "L2 = L\<lparr>lattice := upd_on (set ks2) F2 (upd_on (set ks1) F1 (lattice L))\<rparr>"
  have sub: "set (map fst (lattice L)) \<subseteq> set (keys L)" by (simp add: keys_def)
  have 1: "mean_loop ks1 L = Returned L1"
    using d k1 by (simp add: mean_loop_upd_on L1_def F1_def)
  have keys1: "keys L1 = keys L" by (simp add: L1_def)
  have lat1: "lattice L1 = upd_on (set ks1) F1 (lattice L)" by (simp add: L1_def)
  have rn: "receptive_now L1 k = receptive_now L k" if "k \<in> set (keys L)" for k
    unfolding L1_def using that by (intro receptive_now_upd_on) (simp_all add: F1_def)
  have "reset_loop ks2 L1
        = Returned (L1\<lparr>lattice := upd_on (set ks2) (\<lambda>k. reset_cell (receptive_now L1 k)) (lattice L1)\<rparr>)"
    using d k2 keys1 by (intro reset_loop_upd_on) simp_all
  also have "upd_on (set ks2) (\<lambda>k. reset_cell (receptive_now L1 k)) (lattice L1)
             = upd_on (set ks2) F2 (lattice L1)"
    using k2 by (intro upd_on_cong) (simp add: rn F2_def)
  finally have 2: "reset_loop ks2 L1 = Returned L2"
    by (simp add: L1_def L2_def)
  have keys2: "keys L2 = keys L" by (simp add: L2_def keys_def)
  have uc: "update_cell L2 = update_cell L" by (simp add: L2_def)
  have "update_loop ks3 L2
        = Returned (L2\<lparr>lattice := upd_on (set ks3) (\<lambda>k. update_cell L2) (lattice L2)\<rparr>)"
    using d k3 keys2 by (intro update_loop_upd_on) simp_all
  also have "upd_on (set ks3) (\<lambda>k. update_cell L2) (lattice L2)
             = map_cells (\<lambda>k. update_cell L) (map_cells F2 (map_cells F1 (lattice L)))"
    using k1 k2 k3 sub unfolding uc L2_def by (simp add: upd_on_all)
  also have "\<dots> = map_cells (step_cell L) (lattice L)"
    by (rule map_cells_three) (simp add: step_cell_def F1_def F2_def)
  finally have 3: "update_loop ks3 L2 = Returned (next_lattice L)"
    by (simp add: next_lattice_def L2_def)
  from 1 keys1 2 keys2 3 show ?thesis by blast
qed

lemma diffusion_on_next:
  assumes "distinct (keys L)" "all_ends_frozen L = Returned False"
    and "distinct ks1" "set ks1 = set (keys L)"
    and "distinct ks2" "set ks2 = set (keys L)"
    and "distinct ks3" "set ks3 = set (keys L)"
  shows "diffusion_on ks1 ks2 ks3 L = Returned (next_lattice L)"
proof -
  from loops_chain [OF assms(1) assms(3-8)] obtain L1 L2 where
    "mean_loop ks1 L = Returned L1" "reset_loop ks2 L1 = Returned L2"
    "update_loop ks3 L2 = Returned (next_lattice L)" by blast
  then show ?thesis by (simp add: diffusion_on_def assms(2))
qed

lemma diffusion_next:
  assumes d: "distinct (keys L)" and a: "all_ends_frozen L = Returned False"
  shows "diffusion L = Returned (next_lattice L)"
proof -
  from loops_chain [OF d d refl d refl d refl] obtain L1 L2 where
    "mean_loop (keys L) L = Returned L1" "keys L1 = keys L"
    "reset_loop (keys L) L1 = Returned L2" "keys L2 = keys L"
    "update_loop (keys L) L2 = Returned (next_lattice L)" by blast
  then show ?thesis by (simp add: diffusion_def a)
qed

section \<open>The termination detector: what it returns\<close>

lemma frozen_list_compare [simp]:
  "(last ([0] @ [n]) = last (butlast ([0] @ [n]))) = (n = (0::nat))"
  by auto

lemma remdups_six:
  "n \<noteq> 1 \<Longrightarrow> branch_ends n = branch_end_list n"
  by (auto simp: branch_ends_def branch_end_list_def)

lemma frozen_ends_six:
  "lattice_size L \<noteq> 1 \<Longrightarrow>
   (frozen_ends L = 6)
     = list_all (\<lambda>c. ge_one (state (cell_at L c))) (branch_end_list (lattice_size L))"
  by (simp add: frozen_ends_def remdups_six) (simp add: branch_end_list_def)

text \<open>
  For every size other than 1 the six branch ends are six elements of the set, and the
  branch-end condition is taken exactly when all six are frozen.
\<close>

lemma branch_end_condition:
  "lattice_size L \<noteq> 1 \<Longrightarrow> \<not> ends_missing L \<Longrightarrow> count_frozen L \<noteq> 0 \<Longrightarrow>
   (all_ends_frozen L
      = Exited [Print (count_frozen L) (beta L) (gamma L), SaveImage (beta L) (gamma L)])
     = list_all (\<lambda>c. ge_one (state (cell_at L c))) (branch_end_list (lattice_size L))"
  by (simp add: all_ends_frozen_def Let_def frozen_ends_six)

lemma frozen_ends_size_one: "lattice_size L = 1 \<Longrightarrow> frozen_ends L \<le> 1"
  by (simp add: frozen_ends_def branch_ends_def branch_end_list_def)

lemma stall_branch:
  "\<not> ends_missing L \<Longrightarrow> frozen_ends L \<noteq> 6 \<Longrightarrow>
   all_ends_frozen L = (if count_frozen L = 0
      then Exited [Print 0 (beta L) (gamma L), SaveImage (beta L) (gamma L)]
      else Returned False)"
  by (simp add: all_ends_frozen_def Let_def)

text \<open>
  C2, as the claim states it, fails: on \<^verbatim>\<open>CrystalLattice(2, 1, 1, 0)\<close> every cell starts
  frozen, and the first call of the detector prints, saves the image and exits.
\<close>

theorem all_ends_frozen_exits:
  "all_ends_frozen (CrystalLattice_init 2 1 1 0) = Exited [Print 19 1 0, SaveImage 1 0]"
  by code_simp

text \<open>
  C2 (amended): the convergence query is not a pure query. It never returns \<^verbatim>\<open>True\<close>: a
  call either returns \<^verbatim>\<open>False\<close>, or raises \<^verbatim>\<open>KeyError\<close>, or prints the frozen count with
  \<^verbatim>\<open>beta\<close> and \<^verbatim>\<open>gamma\<close>, saves the image and exits the process itself. It raises
  \<^verbatim>\<open>KeyError\<close> exactly when one of the six branch-end coordinates is not in the lattice.
  On a lattice of a size other than 1 whose six branch ends are in the lattice and all
  have \<^verbatim>\<open>state >= 1\<close>, it prints, saves and exits; nothing is left to the caller.
\<close>

theorem all_ends_frozen_outcome:
  "all_ends_frozen L \<noteq> Returned True
   \<and> (all_ends_frozen L = Returned False \<or> all_ends_frozen L = KeyError
        \<or> all_ends_frozen L
            = Exited [Print (count_frozen L) (beta L) (gamma L), SaveImage (beta L) (gamma L)])
   \<and> (all_ends_frozen L = KeyError)
       = list_ex (\<lambda>c. c \<notin> set (keys L)) (branch_end_list (lattice_size L))
   \<and> (lattice_size L \<noteq> 1
        \<and> list_all (\<lambda>c. c \<in> set (keys L) \<and> ge_one (state (cell_at L c)))
              (branch_end_list (lattice_size L))
        \<longrightarrow> all_ends_frozen L
            = Exited [Print (count_frozen L) (beta L) (gamma L), SaveImage (beta L) (gamma L)])"
proof (intro conjI impI)
  show "all_ends_frozen L \<noteq> Returned True"
    by (simp add: all_ends_frozen_def Let_def)
  show "all_ends_frozen L = Returned False \<or> all_ends_frozen L = KeyError
        \<or> all_ends_frozen L
            = Exited [Print (count_frozen L) (beta L) (gamma L), SaveImage (beta L) (gamma L)]"
    by (simp add: all_ends_frozen_def Let_def)
  have m: "ends_missing L = list_ex (\<lambda>c. c \<notin> set (keys L)) (branch_end_list (lattice_size L))"
    by (simp add: ends_missing_def branch_ends_def list_ex_iff keys_def map_of_eq_None_iff)
  show "(all_ends_frozen L = KeyError)
       = list_ex (\<lambda>c. c \<notin> set (keys L)) (branch_end_list (lattice_size L))"
    unfolding m [symmetric] by (simp add: all_ends_frozen_def Let_def)
  assume a: "lattice_size L \<noteq> 1
        \<and> list_all (\<lambda>c. c \<in> set (keys L) \<and> ge_one (state (cell_at L c)))
              (branch_end_list (lattice_size L))"
  then have "\<not> ends_missing L" unfolding m by (auto simp: list_ex_iff list_all_iff)
  moreover have "frozen_ends L = 6"
    using a by (simp add: frozen_ends_six) (simp add: list_all_iff)
  ultimately show "all_ends_frozen L
            = Exited [Print (count_frozen L) (beta L) (gamma L), SaveImage (beta L) (gamma L)]"
    by (simp add: all_ends_frozen_def Let_def)
qed

theorem all_ends_frozen_outcome_witness:
  "lattice_size (CrystalLattice_init 3 1 (3/2) 0) \<noteq> 1
   \<and> list_all (\<lambda>c. c \<in> set (keys (CrystalLattice_init 3 1 (3/2) 0))
                   \<and> ge_one (state (cell_at (CrystalLattice_init 3 1 (3/2) 0) c)))
         (branch_end_list (lattice_size (CrystalLattice_init 3 1 (3/2) 0)))
   \<and> all_ends_frozen (CrystalLattice_init 3 1 (3/2) 0)
       = Exited [Print (count_frozen (CrystalLattice_init 3 1 (3/2) 0))
                   (beta (CrystalLattice_init 3 1 (3/2) 0)) (gamma (CrystalLattice_init 3 1 (3/2) 0)),
                 SaveImage (beta (CrystalLattice_init 3 1 (3/2) 0))
                   (gamma (CrystalLattice_init 3 1 (3/2) 0))]
   \<and> count_frozen (CrystalLattice_init 3 1 (3/2) 0) = 37"
proof -
  have a: "lattice_size (CrystalLattice_init 3 1 (3/2) 0) \<noteq> 1" by code_simp
  have b: "list_all (\<lambda>c. c \<in> set (keys (CrystalLattice_init 3 1 (3/2) 0))
                   \<and> ge_one (state (cell_at (CrystalLattice_init 3 1 (3/2) 0) c)))
         (branch_end_list (lattice_size (CrystalLattice_init 3 1 (3/2) 0)))"
    by code_simp
  have c: "count_frozen (CrystalLattice_init 3 1 (3/2) 0) = 37" by code_simp
  from a b c all_ends_frozen_outcome [of "CrystalLattice_init 3 1 (3/2) 0"]
  show ?thesis by blast
qed

text \<open>
  C6 (the code differs): for \<^verbatim>\<open>size = 1\<close> the six branch ends are all \<^verbatim>\<open>(0, 0)\<close>, one
  element of the set the code loops over, so at most one end is counted and the count
  never reaches six. On \<^verbatim>\<open>CrystalLattice(1, 1, 0.5, 0.001)\<close> each of the six listed
  coordinates has \<^verbatim>\<open>state >= 1\<close>, and the detector returns \<^verbatim>\<open>False\<close>.
\<close>

theorem branch_ends_size_one_missed:
  "list_all (\<lambda>c. ge_one (state (cell_at (CrystalLattice_init 1 1 (1/2) (1/1000)) c)))
     (branch_end_list 1)
   \<and> frozen_ends (CrystalLattice_init 1 1 (1/2) (1/1000)) = 1
   \<and> all_ends_frozen (CrystalLattice_init 1 1 (1/2) (1/1000)) = Returned False"
  by code_simp

section \<open>Construction\<close>

lemma create_cell_eq:
  "create_cell q r L =
     (if in_row (lattice_size L) q r
      then L\<lparr>lattice := AList.update (r, q) (initial_cell (beta L) q r) (lattice L)\<rparr>
      else L)"
  by (simp add: create_cell_def in_row_def initial_cell_def)

lemma update_fresh:
  "k \<notin> fst ` set al \<Longrightarrow> AList.update k x al = al @ [(k, x)]"
  by (induction al) auto

lemma fold_create_cell:
  "distinct rs \<Longrightarrow> \<forall>r\<in>set rs. (r, q) \<notin> fst ` set (lattice L) \<Longrightarrow>
   fold (create_cell q) rs L
     = L\<lparr>lattice := lattice L
          @ map (\<lambda>r. ((r, q), initial_cell (beta L) q r)) (filter (in_row (lattice_size L) q) rs)\<rparr>"
proof (induction rs arbitrary: L)
  case Nil
  show ?case by simp
next
  case (Cons r rs)
  let ?L1 = "create_cell q r L"
  have fresh: "\<forall>r'\<in>set rs. (r', q) \<notin> fst ` set (lattice ?L1)"
    using Cons.prems by (auto simp: create_cell_eq update_fresh)
  have "fold (create_cell q) (r # rs) L = fold (create_cell q) rs ?L1" by simp
  also have "\<dots> = ?L1\<lparr>lattice := lattice ?L1
          @ map (\<lambda>r. ((r, q), initial_cell (beta ?L1) q r)) (filter (in_row (lattice_size ?L1) q) rs)\<rparr>"
    using Cons.prems fresh by (intro Cons.IH) auto
  also have "\<dots> = L\<lparr>lattice := lattice L
          @ map (\<lambda>r. ((r, q), initial_cell (beta L) q r)) (filter (in_row (lattice_size L) q) (r # rs))\<rparr>"
    using Cons.prems by (simp add: create_cell_eq update_fresh)
  finally show ?case .
qed

lemma row_keys: "fst ` set (map (\<lambda>r. ((r, q), f r)) xs) = (\<lambda>r. (r, q)) ` set xs"
  by (induction xs) auto

lemma fold_rows:
  "distinct rs \<Longrightarrow> distinct qs \<Longrightarrow> \<forall>q\<in>set qs. \<forall>r. (r, q) \<notin> fst ` set (lattice L) \<Longrightarrow>
   fold (\<lambda>q. fold (create_cell q) rs) qs L
     = L\<lparr>lattice := lattice L
          @ concat (map (\<lambda>q. map (\<lambda>r. ((r, q), initial_cell (beta L) q r))
                                 (filter (in_row (lattice_size L) q) rs)) qs)\<rparr>"
proof (induction qs arbitrary: L)
  case Nil
  show ?case by simp
next
  case (Cons q qs)
  let ?row = "map (\<lambda>r. ((r, q), initial_cell (beta L) q r)) (filter (in_row (lattice_size L) q) rs)"
  let ?L1 = "L\<lparr>lattice := lattice L @ ?row\<rparr>"
  have 1: "fold (create_cell q) rs L = ?L1"
    using Cons.prems by (intro fold_create_cell) auto
  have fresh: "\<forall>q'\<in>set qs. \<forall>r. (r, q') \<notin> fst ` set (lattice ?L1)"
    using Cons.prems by (auto simp: image_Un row_keys)
  have "fold (\<lambda>q. fold (create_cell q) rs) (q # qs) L = fold (\<lambda>q. fold (create_cell q) rs) qs ?L1"
    by (simp add: 1)
  also have "\<dots> = ?L1\<lparr>lattice := lattice ?L1
          @ concat (map (\<lambda>q. map (\<lambda>r. ((r, q), initial_cell (beta ?L1) q r))
                                 (filter (in_row (lattice_size ?L1) q) rs)) qs)\<rparr>"
    using Cons.prems fresh by (intro Cons.IH) auto
  finally show ?case by simp
qed

lemma init_unfold:
  "CrystalLattice_init n a b g
     = \<lparr>lattice_size = n, lattice = concat (map (row_cells n b) [- n .. n]),
        alpha = a, beta = b, gamma = g\<rparr>"
proof -
  let ?L = "\<lparr>lattice_size = n, lattice = [], alpha = a, beta = b, gamma = g\<rparr>"
  have "fold (\<lambda>q. fold (create_cell q) [- n .. n]) [- n .. n] ?L
        = ?L\<lparr>lattice := lattice ?L
          @ concat (map (\<lambda>q. map (\<lambda>r. ((r, q), initial_cell (beta ?L) q r))
                                 (filter (in_row (lattice_size ?L) q) [- n .. n])) [- n .. n])\<rparr>"
    by (intro fold_rows) auto
  moreover have "row_cells n b
      = (\<lambda>q. map (\<lambda>r. ((r, q), initial_cell b q r)) (filter (in_row n q) [- n .. n]))"
    by (rule ext) (simp add: row_cells_def)
  ultimately show ?thesis
    by (simp add: CrystalLattice_init_def create_hexagonal_lattice_def)
qed

lemma mem_lattice_init:
  "(((r, q), h) \<in> set (lattice (CrystalLattice_init n a b g)))
     = (in_hexagon n (r, q) \<and> h = initial_cell b q r)"
proof -
  have "(((r, q), h) \<in> set (lattice (CrystalLattice_init n a b g)))
        = (\<exists>q'\<in>{- n .. n}. ((r, q), h) \<in> set (row_cells n b q'))"
    by (simp add: init_unfold)
  also have "\<dots> = (q \<in> {- n .. n} \<and> ((r, q), h) \<in> set (row_cells n b q))"
    by (auto simp: row_cells_def)
  also have "\<dots> = (in_hexagon n (r, q) \<and> h = initial_cell b q r)"
    by (auto simp: row_cells_def in_row_def in_hexagon_def)
  finally show ?thesis .
qed

lemma keys_init: "(c \<in> set (keys (CrystalLattice_init n a b g))) = in_hexagon n c"
proof (cases c)
  case (Pair r q)
  have "(c \<in> set (keys (CrystalLattice_init n a b g)))
        = (\<exists>h. (c, h) \<in> set (lattice (CrystalLattice_init n a b g)))"
    by (force simp: keys_def)
  then show ?thesis by (simp add: Pair mem_lattice_init)
qed

lemma distinct_row: "distinct (map fst (row_cells n b q))"
  by (simp add: row_cells_def distinct_map inj_on_def comp_def)

lemma distinct_rows:
  "distinct qs \<Longrightarrow> distinct (map fst (concat (map (row_cells n b) qs)))"
proof (induction qs)
  case Nil
  show ?case by simp
next
  case (Cons q qs)
  have "fst ` set (row_cells n b q) \<inter> fst ` set (concat (map (row_cells n b) qs)) = {}"
    using Cons.prems by (auto simp: row_cells_def)
  with Cons show ?case by (simp add: distinct_row)
qed

lemma distinct_keys_init: "distinct (keys (CrystalLattice_init n a b g))"
  by (simp add: init_unfold keys_def distinct_rows)

lemma map_of_init:
  "map_of (lattice (CrystalLattice_init n a b g)) (r, q)
     = (if (r, q) \<in> set (keys (CrystalLattice_init n a b g))
        then Some (initial_cell b q r) else None)"
proof (cases "(r, q) \<in> set (keys (CrystalLattice_init n a b g))")
  case False
  then show ?thesis by (simp add: keys_def map_of_eq_None_iff)
next
  case True
  then have "((r, q), initial_cell b q r) \<in> set (lattice (CrystalLattice_init n a b g))"
    by (simp add: keys_init mem_lattice_init)
  moreover have "distinct (map fst (lattice (CrystalLattice_init n a b g)))"
    using distinct_keys_init by (simp add: keys_def)
  ultimately show ?thesis using True by simp
qed

lemma length_row:
  assumes "- n \<le> q" "q \<le> n"
  shows "int (length (row_cells n b q)) = 2 * n + 1 - \<bar>q\<bar>"
proof -
  have "length (row_cells n b q) = card ({r. in_row n q r} \<inter> set [- n .. n])"
    by (simp add: row_cells_def distinct_length_filter)
  also have "{r. in_row n q r} \<inter> set [- n .. n] = {max (- n) (- n - q) .. min n (n - q)}"
    by (auto simp: in_row_def)
  finally show ?thesis using assms by simp
qed

lemma hexagon_sum:
  "0 \<le> m \<Longrightarrow> sum_list (map (\<lambda>q. c - \<bar>q\<bar>) [- m .. m]) = (2 * m + 1) * c - m * (m + 1)"
proof (induction m rule: int_ge_induct)
  case base
  show ?case by simp
next
  case (step m)
  have "[- (m + 1) .. m + 1] = (- (m + 1)) # [- m .. m] @ [m + 1]"
    using step.hyps upto_rec1 [of "- (m + 1)" "m + 1"] upto_rec2 [of "- m" "m + 1"] by simp
  then show ?case using step by (simp add: algebra_simps)
qed

lemma length_init:
  assumes "0 \<le> n"
  shows "int (length (lattice (CrystalLattice_init n a b g))) = 3 * n * n + 3 * n + 1"
proof -
  have "int (length (lattice (CrystalLattice_init n a b g)))
        = sum_list (map (\<lambda>q. int (length (row_cells n b q))) [- n .. n])"
    by (simp add: init_unfold length_concat comp_def flip: sum_list_of_nat)
  also have "\<dots> = sum_list (map (\<lambda>q. (2 * n + 1) - \<bar>q\<bar>) [- n .. n])"
    by (rule arg_cong [where f = sum_list], rule map_cong) (simp_all add: length_row)
  also have "\<dots> = (2 * n + 1) * (2 * n + 1) - n * (n + 1)"
    using assms by (rule hexagon_sum)
  finally show ?thesis by (simp add: algebra_simps)
qed

text \<open>
  C5: for every size \<open>n \<ge> 0\<close> the constructed lattice has exactly \<open>3n\<^sup>2 + 3n + 1\<close> cells
  (the dictionary has that many entries, under distinct keys); the cell at \<open>(0, 0)\<close> has
  \<open>state = v = 1\<close> and \<open>u = 0\<close>, and every other cell has \<open>state = u = beta\<close> and
  \<open>v = 0\<close>.
\<close>

theorem construction_cells:
  "0 \<le> n \<Longrightarrow>
   int (length (lattice (CrystalLattice_init n a b g))) = 3 * n * n + 3 * n + 1
   \<and> distinct (keys (CrystalLattice_init n a b g))
   \<and> map_of (lattice (CrystalLattice_init n a b g)) (0, 0)
       = Some \<lparr>u = Num 0, v = Num 1, state = Num 1, mean_u = Num 0, receptive = False\<rparr>
   \<and> (\<forall>c\<in>set (keys (CrystalLattice_init n a b g)). c \<noteq> (0, 0) \<longrightarrow>
         map_of (lattice (CrystalLattice_init n a b g)) c
           = Some \<lparr>u = Num b, v = Num 0, state = Num b, mean_u = Num 0, receptive = False\<rparr>)"
proof (intro conjI ballI impI)
  assume n: "0 \<le> n"
  show "int (length (lattice (CrystalLattice_init n a b g))) = 3 * n * n + 3 * n + 1"
    using n by (rule length_init)
  show "distinct (keys (CrystalLattice_init n a b g))"
    by (rule distinct_keys_init)
  show "map_of (lattice (CrystalLattice_init n a b g)) (0, 0)
       = Some \<lparr>u = Num 0, v = Num 1, state = Num 1, mean_u = Num 0, receptive = False\<rparr>"
    using n by (simp add: map_of_init keys_init in_hexagon_def initial_cell_def)
next
  fix c
  assume "c \<in> set (keys (CrystalLattice_init n a b g))" "c \<noteq> (0, 0)"
  then show "map_of (lattice (CrystalLattice_init n a b g)) c
           = Some \<lparr>u = Num b, v = Num 0, state = Num b, mean_u = Num 0, receptive = False\<rparr>"
    by (cases c rule: prod.exhaust) (auto simp: map_of_init initial_cell_def)
qed

theorem construction_cells_witness:
  "(0::int) \<le> 2
   \<and> length (lattice (CrystalLattice_init 2 1 (1/2) 0)) = 19
   \<and> map_of (lattice (CrystalLattice_init 2 1 (1/2) 0)) (0, 0)
       = Some \<lparr>u = Num 0, v = Num 1, state = Num 1, mean_u = Num 0, receptive = False\<rparr>"
proof -
  have n: "(0::int) \<le> 2" by simp
  have "int (length (lattice (CrystalLattice_init 2 1 (1/2) 0))) = 19"
    using construction_cells [OF n, of 1 "1/2" 0] by simp
  then have "length (lattice (CrystalLattice_init 2 1 (1/2) 0)) = 19" by linarith
  with construction_cells [OF n, of 1 "1/2" 0] show ?thesis by simp
qed

section \<open>Numbers within the range of the doubles\<close>

lemma max_float_ge: "6 \<le> max_float"
  by (simp add: max_float_def)

lemma fl_Num: "- max_float \<le> r \<Longrightarrow> r \<le> max_float \<Longrightarrow> fl r = Num r"
  by (simp add: fl_def)

lemma py_eq_self: "py_eq x x = (x \<noteq> NaN)"
  by (cases x) simp_all

lemma np_mean_empty: "np_mean [] = NaN"
  by (simp add: np_mean_def)

lemma fold_fadd_bounded:
  assumes "\<forall>x\<in>set xs. \<exists>r. x = Num r \<and> lo \<le> r \<and> r \<le> hi" "lo \<le> 0" "0 \<le> hi"
    and "- max_float \<le> real (length xs) * lo + a" "real (length xs) * hi + a \<le> max_float"
  shows "\<exists>s. fold fadd xs (Num a) = Num s
             \<and> real (length xs) * lo + a \<le> s \<and> s \<le> real (length xs) * hi + a"
  using assms
proof (induction xs arbitrary: a)
  case Nil
  then show ?case by simp
next
  case (Cons x xs)
  from Cons.prems(1) obtain r where r: "x = Num r" "lo \<le> r" "r \<le> hi" by auto
  have len: "real (length (x # xs)) = real (length xs) + 1" by simp
  have lo: "real (length xs) * lo \<le> 0" using Cons.prems(2) by (simp add: mult_nonneg_nonpos)
  have hi: "0 \<le> real (length xs) * hi" using Cons.prems(3) by simp
  have b1: "- max_float \<le> real (length xs) * lo + (r + a)"
    using Cons.prems(4) r(2) unfolding len by (simp add: algebra_simps)
  have b2: "real (length xs) * hi + (r + a) \<le> max_float"
    using Cons.prems(5) r(3) unfolding len by (simp add: algebra_simps)
  have "- max_float \<le> r + a" "r + a \<le> max_float" using b1 b2 lo hi by linarith+
  then have f: "fadd x (Num a) = Num (r + a)" by (simp add: r(1) fl_Num)
  have "\<exists>s. fold fadd xs (Num (r + a)) = Num s
             \<and> real (length xs) * lo + (r + a) \<le> s \<and> s \<le> real (length xs) * hi + (r + a)"
    using Cons.prems(1,2,3) b1 b2 by (intro Cons.IH) auto
  then obtain s where s: "fold fadd xs (Num (r + a)) = Num s"
    "real (length xs) * lo + (r + a) \<le> s" "s \<le> real (length xs) * hi + (r + a)" by blast
  have "real (length (x # xs)) * lo + a \<le> s" "s \<le> real (length (x # xs)) * hi + a"
    using s(2,3) r(2,3) unfolding len by (simp_all add: algebra_simps)
  with s(1) f show ?case by auto
qed

lemma np_mean_bounded:
  assumes ne: "xs \<noteq> []" and len: "length xs \<le> 6"
    and xs: "\<forall>x\<in>set xs. \<exists>r. x = Num r \<and> lo \<le> r \<and> r \<le> hi"
    and lo: "lo \<le> 0" "- max_float \<le> 6 * lo" and hi: "0 \<le> hi" "6 * hi \<le> max_float"
  shows "\<exists>m. np_mean xs = Num m \<and> lo \<le> m \<and> m \<le> hi"
proof -
  have n: "0 < real (length xs)" "real (length xs) \<le> 6" using ne len by simp_all
  have "6 * lo \<le> real (length xs) * lo" using n(2) lo(1) by (simp add: mult_right_mono_neg)
  then have 1: "- max_float \<le> real (length xs) * lo + 0" using lo(2) by simp
  have "real (length xs) * hi \<le> 6 * hi" using n(2) hi(1) by (simp add: mult_right_mono)
  then have 2: "real (length xs) * hi + 0 \<le> max_float" using hi(2) by simp
  from fold_fadd_bounded [OF xs lo(1) hi(1) 1 2] obtain s where
    s: "fold fadd xs (Num 0) = Num s" "real (length xs) * lo \<le> s" "s \<le> real (length xs) * hi"
    by auto
  have "lo \<le> s / real (length xs)" using s(2) n(1) by (simp add: pos_le_divide_eq mult.commute)
  moreover have "s / real (length xs) \<le> hi"
    using s(3) n(1) by (simp add: pos_divide_le_eq mult.commute)
  ultimately show ?thesis using ne s(1) by (simp add: np_mean_def)
qed

text \<open>
  \<open>u + alpha/2 * (meanU - u)\<close> on numbers of magnitude at most \<open>B\<close>, for \<open>0 \<le> alpha/2 \<le> 1\<close>:
  no intermediate result leaves the range.
\<close>

lemma relax_num:
  assumes "\<bar>x\<bar> \<le> B" "\<bar>m\<bar> \<le> B" "0 \<le> a" "a \<le> 1" "2 * B \<le> max_float"
  shows "fadd (Num x) (fmul (Num a) (fsub (Num m) (Num x))) = Num (x + a * (m - x))"
proof -
  have d: "\<bar>m - x\<bar> \<le> 2 * B" using assms(1,2) by linarith
  then have 1: "fsub (Num m) (Num x) = Num (m - x)"
    using assms(5) by (simp add: fsub_def fl_Num)
  have "\<bar>a * (m - x)\<bar> \<le> 1 * \<bar>m - x\<bar>"
    unfolding abs_mult using assms(3,4) by (intro mult_right_mono) simp_all
  then have ad: "\<bar>a * (m - x)\<bar> \<le> 2 * B" using d by simp
  then have 2: "fmul (Num a) (Num (m - x)) = Num (a * (m - x))"
    using assms(5) by (simp add: fl_Num)
  have "x + a * (m - x) = (1 - a) * x + a * m" by (simp add: algebra_simps)
  moreover have "\<bar>(1 - a) * x\<bar> \<le> (1 - a) * B"
    unfolding abs_mult using assms(1,3,4) by (simp add: mult_left_mono)
  moreover have "\<bar>a * m\<bar> \<le> a * B"
    unfolding abs_mult using assms(2,3) by (simp add: mult_left_mono)
  ultimately have "\<bar>x + a * (m - x)\<bar> \<le> (1 - a) * B + a * B" by linarith
  then have "\<bar>x + a * (m - x)\<bar> \<le> B" by (simp add: algebra_simps)
  moreover have "0 \<le> B" using assms(1) by linarith
  ultimately have 3: "fl (x + a * (m - x)) = Num (x + a * (m - x))"
    using assms(5) by (intro fl_Num) linarith+
  have "fadd (Num x) (fmul (Num a) (fsub (Num m) (Num x)))
        = fadd (Num x) (fmul (Num a) (Num (m - x)))" by (simp only: 1)
  also have "\<dots> = fadd (Num x) (Num (a * (m - x)))" by (simp only: 2)
  also have "\<dots> = Num (x + a * (m - x))" using 3 by simp
  finally show ?thesis .
qed

lemma relax_between:
  assumes "lo \<le> x" "x \<le> hi" "lo \<le> m" "m \<le> hi" "0 \<le> a" "a \<le> (1::real)"
  shows "lo \<le> x + a * (m - x)" "x + a * (m - x) \<le> hi"
proof -
  have e: "x + a * (m - x) = (1 - a) * x + a * m" by (simp add: algebra_simps)
  have "(1 - a) * lo \<le> (1 - a) * x" "a * lo \<le> a * m"
    using assms by (simp_all add: mult_left_mono)
  then have "(1 - a) * lo + a * lo \<le> (1 - a) * x + a * m" by linarith
  then show "lo \<le> x + a * (m - x)" unfolding e by (simp add: algebra_simps)
  have "(1 - a) * x \<le> (1 - a) * hi" "a * m \<le> a * hi"
    using assms by (simp_all add: mult_left_mono)
  then have "(1 - a) * x + a * m \<le> (1 - a) * hi + a * hi" by linarith
  then show "x + a * (m - x) \<le> hi" unfolding e by (simp add: algebra_simps)
qed

section \<open>One cell in one step\<close>

lemma cell_at_mem:
  "distinct (keys L) \<Longrightarrow> (c, h) \<in> set (lattice L) \<Longrightarrow> cell_at L c = h"
  by (simp add: cell_at_def keys_def)

lemma cell_at_in_lattice:
  "c \<in> set (keys L) \<Longrightarrow> (c, cell_at L c) \<in> set (lattice L)"
proof -
  assume "c \<in> set (keys L)"
  then obtain h where h: "map_of (lattice L) c = Some h" by (auto dest: in_keys_map_of)
  then have "(c, h) \<in> set (lattice L)" by (rule map_of_SomeD)
  with h show ?thesis by (simp add: cell_at_def)
qed

lemma mem_keys: "(c, h) \<in> set (lattice L) \<Longrightarrow> c \<in> set (keys L)"
  by (force simp: keys_def)

lemma step_cell_fields:
  "mean_u (step_cell L c h) = umean_neighbours L c"
  "u (step_cell L c h)
     = fadd (if receptive_now L c then Num 0 else state h)
         (fmul (Num (alpha L / 2))
            (fsub (umean_neighbours L c) (if receptive_now L c then Num 0 else state h)))"
  "v (step_cell L c h)
     = (if receptive_now L c \<or> receptive h
        then fadd (if receptive_now L c then state h else Num 0) (Num (gamma L))
        else (if receptive_now L c then state h else Num 0))"
  by (simp_all add: step_cell_def update_cell_def reset_cell_def Let_def)

lemma keys_next_lattice [simp]: "keys (next_lattice L) = keys L"
  by (simp add: next_lattice_def keys_def)

lemma get_neighbours_next [simp]: "get_neighbours (next_lattice L) c = get_neighbours L c"
  by (simp add: get_neighbours_def)

lemma mem_next_lattice:
  "((c, h') \<in> set (lattice (next_lattice L)))
     = (\<exists>h. (c, h) \<in> set (lattice L) \<and> h' = step_cell L c h)"
  by (auto simp: next_lattice_def map_cells_def)

lemma cell_at_next:
  "c \<in> set (keys L) \<Longrightarrow> cell_at (next_lattice L) c = step_cell L c (cell_at L c)"
  by (auto simp: cell_at_def next_lattice_def map_of_map_cells dest: in_keys_map_of)

lemma lattice_next_params [simp]:
  "alpha (next_lattice L) = alpha L" "gamma (next_lattice L) = gamma L"
  "beta (next_lattice L) = beta L" "lattice_size (next_lattice L) = lattice_size L"
  by (simp_all add: next_lattice_def)

lemma well_formed_next: "well_formed L \<Longrightarrow> well_formed (next_lattice L)"
  by (simp add: well_formed_def)

lemma length_get_neighbours: "length (get_neighbours L c) \<le> 6"
proof (cases c)
  case (Pair q r)
  have "length (get_neighbours L c)
        \<le> length [(q, r - 1), (q + 1, r - 1), (q + 1, r), (q, r + 1), (q - 1, r + 1), (q - 1, r)]"
    unfolding Pair get_neighbours_def prod.case by (rule length_filter_le)
  then show ?thesis by simp
qed

lemma umean_bounded:
  assumes ne: "get_neighbours L c \<noteq> []"
    and us: "\<forall>d\<in>set (get_neighbours L c). \<exists>x. u (cell_at L d) = Num x \<and> lo \<le> x \<and> x \<le> hi"
    and lo: "lo \<le> 0" "- max_float \<le> 6 * lo" and hi: "0 \<le> hi" "6 * hi \<le> max_float"
  shows "\<exists>m. umean_neighbours L c = Num m \<and> lo \<le> m \<and> m \<le> hi"
  unfolding umean_neighbours_def
proof (rule np_mean_bounded [OF _ _ _ lo hi])
  show "map (\<lambda>qr. u (cell_at L qr)) (get_neighbours L c) \<noteq> []" using ne by simp
  show "length (map (\<lambda>qr. u (cell_at L qr)) (get_neighbours L c)) \<le> 6"
    by (simp add: length_get_neighbours)
  show "\<forall>x\<in>set (map (\<lambda>qr. u (cell_at L qr)) (get_neighbours L c)).
          \<exists>r. x = Num r \<and> lo \<le> r \<and> r \<le> hi"
    using us by auto
qed

section \<open>Lattices reached from construction\<close>

lemma diffusion_Returned:
  assumes "distinct (keys L)" "diffusion L = Returned L'"
  shows "all_ends_frozen L = Returned False \<and> L' = next_lattice L"
proof -
  from all_ends_frozen_cases [of L] assms(2)
  have a: "all_ends_frozen L = Returned False"
    by (auto simp: diffusion_def)
  with assms show ?thesis by (simp add: diffusion_next)
qed

lemma steps_Suc_Returned:
  "steps (Suc k) L0 = Returned L \<Longrightarrow> \<exists>L'. steps k L0 = Returned L' \<and> diffusion L' = Returned L"
  by (cases "steps k L0") auto

lemma neighbour_in_hexagon:
  assumes "1 \<le> n" "in_hexagon n (x, y)"
  shows "in_hexagon n (x, y - 1) \<or> in_hexagon n (x + 1, y - 1) \<or> in_hexagon n (x + 1, y)
         \<or> in_hexagon n (x, y + 1) \<or> in_hexagon n (x - 1, y + 1) \<or> in_hexagon n (x - 1, y)"
proof -
  have "in_hexagon n (x + 1, y) \<or> in_hexagon n (x - 1, y)"
    using assms unfolding in_hexagon_def fst_conv snd_conv by linarith
  then show ?thesis by blast
qed

lemma get_neighbours_init:
  assumes "1 \<le> n" "c \<in> set (keys (CrystalLattice_init n a b g))"
  shows "get_neighbours (CrystalLattice_init n a b g) c \<noteq> []"
proof (cases c)
  case (Pair x y)
  with assms have "in_hexagon n (x, y)" by (simp add: keys_init)
  from neighbour_in_hexagon [OF assms(1) this] show ?thesis
    unfolding Pair get_neighbours_def prod.case filter_empty_conv
    by (auto simp: keys_init)
qed

lemma well_formed_init:
  "1 \<le> n \<Longrightarrow> well_formed (CrystalLattice_init n a b g)"
  by (simp add: well_formed_def distinct_keys_init get_neighbours_init)

lemma well_formed_steps:
  "1 \<le> n \<Longrightarrow> steps k (CrystalLattice_init n a b g) = Returned L \<Longrightarrow> well_formed L"
proof (induction k arbitrary: L)
  case 0
  then show ?case using well_formed_init [of n a b g] by auto
next
  case (Suc k)
  from steps_Suc_Returned [OF Suc.prems(2)] obtain L' where
    L': "steps k (CrystalLattice_init n a b g) = Returned L'" "diffusion L' = Returned L" by blast
  have wf: "well_formed L'" using Suc.prems(1) L'(1) by (rule Suc.IH)
  then have "distinct (keys L')" by (simp add: well_formed_def)
  from diffusion_Returned [OF this L'(2)] wf show ?case by (simp add: well_formed_next)
qed

lemma ends_missing_init:
  assumes "n \<le> 0"
  shows "ends_missing (CrystalLattice_init n a b g)"
proof -
  have "\<not> in_hexagon n (- (n - 1), n - 1)" using assms by (simp add: in_hexagon_def)
  then have "map_of (lattice (CrystalLattice_init n a b g)) (- (n - 1), n - 1) = None"
    by (simp add: map_of_init keys_init)
  moreover have "(- (n - 1), n - 1) \<in> set (branch_ends n)"
    by (simp add: branch_ends_def branch_end_list_def)
  moreover have "lattice_size (CrystalLattice_init n a b g) = n" by (simp add: init_unfold)
  ultimately show ?thesis unfolding ends_missing_def list_ex_iff by auto
qed

lemma diffusion_small_init:
  "n \<le> 0 \<Longrightarrow> diffusion (CrystalLattice_init n a b g) = KeyError"
  using ends_missing_init [of n a b g] by (simp add: diffusion_def all_ends_frozen_def)

lemma steps_small_init:
  "n \<le> 0 \<Longrightarrow> steps (Suc k) (CrystalLattice_init n a b g) = KeyError"
  by (induction k) (simp_all add: diffusion_small_init)

lemma steps_Suc_size:
  "steps (Suc k) (CrystalLattice_init n a b g) = Returned L \<Longrightarrow> 1 \<le> n"
  using steps_small_init [of n k a b g] by (cases "n \<le> 0") auto

lemma keys_steps:
  "distinct (keys L0) \<Longrightarrow> steps k L0 = Returned L \<Longrightarrow> keys L = keys L0"
proof (induction k arbitrary: L)
  case 0
  then show ?case by simp
next
  case (Suc k)
  from steps_Suc_Returned [OF Suc.prems(2)] obtain L' where
    L': "steps k L0 = Returned L'" "diffusion L' = Returned L" by blast
  have k: "keys L' = keys L0" using Suc.prems(1) L'(1) by (rule Suc.IH)
  with Suc.prems(1) have "distinct (keys L')" by simp
  from diffusion_Returned [OF this L'(2)] k show ?case by simp
qed

lemma distinct_keys_steps:
  assumes "steps k (CrystalLattice_init n a b g) = Returned L"
  shows "distinct (keys L)"
  using keys_steps [OF distinct_keys_init assms] by (simp add: distinct_keys_init)

section \<open>Evaluating a run cell by cell\<close>

lemma cell_at_init:
  "in_hexagon n (r, q) \<Longrightarrow> cell_at (CrystalLattice_init n a b g) (r, q) = initial_cell b q r"
  by (simp add: cell_at_def map_of_init keys_init)

lemma params_init [simp]:
  "alpha (CrystalLattice_init n a b g) = a" "beta (CrystalLattice_init n a b g) = b"
  "gamma (CrystalLattice_init n a b g) = g" "lattice_size (CrystalLattice_init n a b g) = n"
  by (simp_all add: init_unfold)

lemma max_float_ge_1000: "1000 \<le> max_float"
  by (simp add: max_float_def)

lemma fl_small: "\<bar>r\<bar> \<le> 1000 \<Longrightarrow> fl r = Num r"
  using max_float_ge_1000 by (intro fl_Num) arith+

lemmas cell_eval =
  cell_at_next cell_at_init keys_init in_hexagon_def initial_cell_def
  step_cell_def update_cell_def reset_cell_def receptive_now_def umean_neighbours_def
  np_mean_def get_neighbours_def Let_def fsub_def fl_small

lemma ends_missing_keys:
  "ends_missing L = (\<exists>c\<in>set (branch_ends (lattice_size L)). c \<notin> set (keys L))"
  by (simp add: ends_missing_def list_ex_iff keys_def map_of_eq_None_iff)

lemma detector_quiet:
  assumes "\<not> ends_missing L"
    and "e \<in> set (branch_ends (lattice_size L))" "\<not> ge_one (state (cell_at L e))"
    and "f \<in> set (keys L)" "ge_one (state (cell_at L f))"
  shows "all_ends_frozen L = Returned False"
proof -
  have "length (filter (\<lambda>c. ge_one (state (cell_at L c))) (branch_ends (lattice_size L)))
        < length (branch_ends (lattice_size L))"
    using assms(2,3) by (intro length_filter_less) auto
  moreover have "length (branch_ends (lattice_size L)) \<le> 6"
    using length_remdups_leq [of "branch_end_list (lattice_size L)"]
    by (simp add: branch_ends_def branch_end_list_def)
  ultimately have "frozen_ends L \<noteq> 6" by (simp add: frozen_ends_def)
  moreover have "count_frozen L \<noteq> 0"
    using assms(4,5) by (auto simp: count_frozen_def filter_empty_conv)
  ultimately show ?thesis using assms(1) by (simp add: all_ends_frozen_def Let_def)
qed

lemma detector_quiet_size_one:
  assumes "lattice_size L = 1" "\<not> ends_missing L"
    and "f \<in> set (keys L)" "ge_one (state (cell_at L f))"
  shows "all_ends_frozen L = Returned False"
proof -
  have "frozen_ends L \<noteq> 6" using frozen_ends_size_one [OF assms(1)] by simp
  moreover have "count_frozen L \<noteq> 0"
    using assms(3,4) by (auto simp: count_frozen_def filter_empty_conv)
  ultimately show ?thesis using assms(2) by (simp add: all_ends_frozen_def Let_def)
qed

lemma lattice_after_Returned: "steps k L = Returned L' \<Longrightarrow> lattice_after k L = L'"
  by (simp add: lattice_after_def)

lemma quiet_init_size_one:
  "all_ends_frozen (CrystalLattice_init 1 a b g) = Returned False"
  by (rule detector_quiet_size_one [where f = "(0, 0)"])
    (simp_all add: ends_missing_keys branch_ends_def branch_end_list_def cell_eval)

lemma first_step_size_one:
  "steps (Suc 0) (CrystalLattice_init 1 a b g)
     = Returned (next_lattice (CrystalLattice_init 1 a b g))"
  by (simp add: diffusion_next distinct_keys_init quiet_init_size_one)

text \<open>The first two steps of \<^verbatim>\<open>CrystalLattice(1, 1, 0.5, 0.25)\<close>.\<close>

lemma sample_first_step:
  "steps (Suc 0) (CrystalLattice_init 1 1 (1/2) (1/4)) = Returned (lattice_after 1 (CrystalLattice_init 1 1 (1/2) (1/4)))"
  using first_step_size_one [of 1 "1/2" "1/4"] by (simp add: lattice_after_def)

lemma sample_after_one:
  "lattice_after 1 (CrystalLattice_init 1 1 (1/2) (1/4)) = next_lattice (CrystalLattice_init 1 1 (1/2) (1/4))"
  using first_step_size_one [of 1 "1/2" "1/4"] by (simp add: lattice_after_def)

lemma sample_quiet_one:
  "all_ends_frozen (next_lattice (CrystalLattice_init 1 1 (1/2) (1/4))) = Returned False"
  by (rule detector_quiet_size_one [where f = "(0, 0)"])
    (simp_all add: ends_missing_keys branch_ends_def branch_end_list_def cell_eval)

lemma sample_second_step:
  "diffusion (lattice_after 1 (CrystalLattice_init 1 1 (1/2) (1/4))) = Returned (lattice_after 2 (CrystalLattice_init 1 1 (1/2) (1/4)))"
proof -
  have d: "diffusion (next_lattice (CrystalLattice_init 1 1 (1/2) (1/4))) = Returned (next_lattice (next_lattice (CrystalLattice_init 1 1 (1/2) (1/4))))"
    by (rule diffusion_next) (simp_all add: distinct_keys_init sample_quiet_one)
  have "steps (Suc (Suc 0)) (CrystalLattice_init 1 1 (1/2) (1/4)) = Returned (next_lattice (next_lattice (CrystalLattice_init 1 1 (1/2) (1/4))))"
    using first_step_size_one [of 1 "1/2" "1/4"] d by simp
  then have "lattice_after 2 (CrystalLattice_init 1 1 (1/2) (1/4)) = next_lattice (next_lattice (CrystalLattice_init 1 1 (1/2) (1/4)))"
    by (simp add: lattice_after_def numeral_2_eq_2)
  with d show ?thesis unfolding sample_after_one by simp
qed


lemma sample_two_steps:
  "steps 2 (CrystalLattice_init 1 1 (1/2) (1/4)) = Returned (lattice_after 2 (CrystalLattice_init 1 1 (1/2) (1/4)))"
proof -
  have "steps (Suc (Suc 0)) (CrystalLattice_init 1 1 (1/2) (1/4)) = Returned (lattice_after 2 (CrystalLattice_init 1 1 (1/2) (1/4)))"
    using sample_first_step sample_second_step by simp
  then show ?thesis by (simp add: numeral_2_eq_2)
qed

lemma sample_flag:
  "(1, 0) \<in> set (keys (lattice_after 1 (CrystalLattice_init 1 1 (1/2) (1/4))))"
  "receptive (cell_at (lattice_after 1 (CrystalLattice_init 1 1 (1/2) (1/4))) (1, 0))"
  unfolding sample_after_one by (simp_all add: cell_eval)

section \<open>A run in which a sum overflows\<close>

lemma overflow_first_step:
  "steps 1 overflow_lattice = Returned (next_lattice overflow_lattice)"
  using first_step_size_one [of 0 "10 ^ 308" 0] by (simp add: overflow_lattice_def)

lemma overflow_cell:
  "cell_at (next_lattice overflow_lattice) (1, 0)
     = \<lparr>u = NaN, v = Num (10 ^ 308), state = NaN, mean_u = PInf, receptive = True\<rparr>"
  unfolding overflow_lattice_def
  by (simp add: cell_eval fl_def max_float_def signed_inf_def)

section \<open>The state is the sum of the two masses\<close>

lemma step_cell_sum: "state (step_cell L c h) = fadd (u (step_cell L c h)) (v (step_cell L c h))"
  by (simp add: step_cell_def update_cell_def Let_def)

lemma diffusion_state_sum:
  assumes "distinct (keys L)" "diffusion L = Returned L'" "(c, h) \<in> set (lattice L')"
  shows "state h = fadd (u h) (v h)"
  using diffusion_Returned [OF assms(1,2)] assms(3)
  by (auto simp: mem_next_lattice step_cell_sum)

text \<open>
  C4, as the claim states it, fails: in \<^verbatim>\<open>CrystalLattice(1, 0, 1e308, 0)\<close> the sum of the
  neighbours' \<open>u\<close> overflows, the mean is \<^verbatim>\<open>inf\<close>, and \<^verbatim>\<open>0 * inf\<close> makes \<open>u\<close> and with it the
  state \<^verbatim>\<open>nan\<close>: after the first step, which completes, \<^verbatim>\<open>state == u + v\<close> is false.
\<close>

theorem state_sum_nan:
  "steps 1 overflow_lattice = Returned (lattice_after 1 overflow_lattice)
   \<and> u (cell_at (lattice_after 1 overflow_lattice) (1, 0)) = NaN
   \<and> state (cell_at (lattice_after 1 overflow_lattice) (1, 0)) = NaN
   \<and> \<not> py_eq (state (cell_at (lattice_after 1 overflow_lattice) (1, 0)))
        (fadd (u (cell_at (lattice_after 1 overflow_lattice) (1, 0)))
              (v (cell_at (lattice_after 1 overflow_lattice) (1, 0))))"
proof -
  have l: "lattice_after 1 overflow_lattice = next_lattice overflow_lattice"
    using overflow_first_step by (rule lattice_after_Returned)
  show ?thesis
    unfolding l overflow_cell
  proof (intro conjI)
    show "steps 1 overflow_lattice = Returned (next_lattice overflow_lattice)"
      by (rule overflow_first_step)
  qed simp_all
qed

text \<open>
  C4 (amended): for every lattice and every cell, a completed step leaves in \<open>state\<close> the
  value of \<open>u + v\<close> for the cell's new \<open>u\<close> and \<open>v\<close>, whatever the cell held before; so
  after the step \<^verbatim>\<open>state == u + v\<close> holds exactly, with no tolerance, unless that sum is
  \<^verbatim>\<open>nan\<close>, and is false when it is.
\<close>

theorem state_is_sum:
  assumes "distinct (keys L)" "diffusion L = Returned L'" "(c, h) \<in> set (lattice L')"
  shows "state h = fadd (u h) (v h)
         \<and> py_eq (state h) (fadd (u h) (v h)) = (fadd (u h) (v h) \<noteq> NaN)"
proof -
  have "state h = fadd (u h) (v h)" using assms by (rule diffusion_state_sum)
  then show ?thesis by (simp add: py_eq_self)
qed

theorem state_is_sum_witness:
  "distinct (keys (CrystalLattice_init 1 1 (1/2) (1/4)))
   \<and> diffusion (CrystalLattice_init 1 1 (1/2) (1/4))
       = Returned (next_lattice (CrystalLattice_init 1 1 (1/2) (1/4)))
   \<and> ((1, 0), cell_at (next_lattice (CrystalLattice_init 1 1 (1/2) (1/4))) (1, 0))
       \<in> set (lattice (next_lattice (CrystalLattice_init 1 1 (1/2) (1/4))))
   \<and> state (cell_at (next_lattice (CrystalLattice_init 1 1 (1/2) (1/4))) (1, 0)) = Num (11/12)
   \<and> py_eq (state (cell_at (next_lattice (CrystalLattice_init 1 1 (1/2) (1/4))) (1, 0)))
        (fadd (u (cell_at (next_lattice (CrystalLattice_init 1 1 (1/2) (1/4))) (1, 0)))
              (v (cell_at (next_lattice (CrystalLattice_init 1 1 (1/2) (1/4))) (1, 0))))"
proof -
  have d: "distinct (keys (CrystalLattice_init 1 1 (1/2) (1/4)))" by (rule distinct_keys_init)
  have s: "diffusion (CrystalLattice_init 1 1 (1/2) (1/4))
       = Returned (next_lattice (CrystalLattice_init 1 1 (1/2) (1/4)))"
    using d quiet_init_size_one by (rule diffusion_next)
  have m: "((1, 0), cell_at (next_lattice (CrystalLattice_init 1 1 (1/2) (1/4))) (1, 0))
       \<in> set (lattice (next_lattice (CrystalLattice_init 1 1 (1/2) (1/4))))"
    by (rule cell_at_in_lattice) (simp add: keys_init in_hexagon_def)
  have v: "state (cell_at (next_lattice (CrystalLattice_init 1 1 (1/2) (1/4))) (1, 0)) = Num (11/12)"
    by (simp add: cell_eval)
  have e: "state (cell_at (next_lattice (CrystalLattice_init 1 1 (1/2) (1/4))) (1, 0))
           = fadd (u (cell_at (next_lattice (CrystalLattice_init 1 1 (1/2) (1/4))) (1, 0)))
               (v (cell_at (next_lattice (CrystalLattice_init 1 1 (1/2) (1/4))) (1, 0)))"
    by (rule conjunct1 [OF state_is_sum [OF d s m]])
  have "py_eq (state (cell_at (next_lattice (CrystalLattice_init 1 1 (1/2) (1/4))) (1, 0)))
        (fadd (u (cell_at (next_lattice (CrystalLattice_init 1 1 (1/2) (1/4))) (1, 0)))
              (v (cell_at (next_lattice (CrystalLattice_init 1 1 (1/2) (1/4))) (1, 0))))"
    unfolding e [symmetric] by (simp add: v)
  with d s m v show ?thesis by (intro conjI)
qed

section \<open>The mean over the neighbours\<close>

text \<open>
  C7, as the claim states it, fails: on the lattice of size 0 the one cell has no neighbour
  and \<^const>\<open>umean_neighbours\<close> is \<^verbatim>\<open>nan\<close>, not the cell's \<open>u\<close> (which is 0); a step on this
  lattice does not come to the first loop, the detector raises \<^verbatim>\<open>KeyError\<close> before.
\<close>

theorem umean_size_zero:
  "get_neighbours (CrystalLattice_init 0 1 (1/2) (1/1000)) (0, 0) = []
   \<and> umean_neighbours (CrystalLattice_init 0 1 (1/2) (1/1000)) (0, 0) = NaN
   \<and> u (cell_at (CrystalLattice_init 0 1 (1/2) (1/1000)) (0, 0)) = Num 0
   \<and> \<not> py_eq (umean_neighbours (CrystalLattice_init 0 1 (1/2) (1/1000)) (0, 0))
            (u (cell_at (CrystalLattice_init 0 1 (1/2) (1/1000)) (0, 0)))
   \<and> diffusion (CrystalLattice_init 0 1 (1/2) (1/1000)) = KeyError"
  by code_simp

lemma umean_overflow: "umean_neighbours overflow_lattice (1, 0) = PInf"
  unfolding overflow_lattice_def
  by (simp add: cell_eval fl_def max_float_def)

text \<open>
  C7 (amended): a cell of a constructed lattice has an empty neighbour list only on the
  lattice of size 0; there \<^const>\<open>umean_neighbours\<close> gives \<^verbatim>\<open>nan\<close> (the mean of the empty list),
  and no step reaches the first loop, since the detector raises \<^verbatim>\<open>KeyError\<close>. On every
  lattice that a run from a constructed lattice of size at least 1 reaches, every cell
  has between one and six neighbours in the lattice, and the mean over them is a number
  whenever their \<open>u\<close> are numbers of a magnitude at most a sixth of the largest double (it is
  \<^verbatim>\<open>inf\<close> or \<^verbatim>\<open>nan\<close> when the sum overflows or a \<open>u\<close> is \<^verbatim>\<open>nan\<close>).
\<close>

theorem umean_defined:
  "(c \<in> set (keys (CrystalLattice_init n a b g))
      \<and> get_neighbours (CrystalLattice_init n a b g) c = [] \<longrightarrow> n = 0)
   \<and> umean_neighbours (CrystalLattice_init 0 a b g) (0, 0) = NaN
   \<and> diffusion (CrystalLattice_init 0 a b g) = KeyError
   \<and> (1 \<le> n \<and> steps k (CrystalLattice_init n a b g) = Returned L \<and> c \<in> set (keys L)
        \<longrightarrow> get_neighbours L c \<noteq> [] \<and> length (get_neighbours L c) \<le> 6
            \<and> ((\<forall>d\<in>set (get_neighbours L c).
                    \<exists>x. u (cell_at L d) = Num x \<and> 6 * \<bar>x\<bar> \<le> max_float)
                 \<longrightarrow> (\<exists>m. umean_neighbours L c = Num m)))"
proof (intro conjI impI)
  assume "c \<in> set (keys (CrystalLattice_init n a b g))
      \<and> get_neighbours (CrystalLattice_init n a b g) c = []"
  then have c: "in_hexagon n c" and e: "get_neighbours (CrystalLattice_init n a b g) c = []"
    by (simp_all add: keys_init)
  from c have "0 \<le> n" by (auto simp: in_hexagon_def)
  moreover have "\<not> 1 \<le> n" using get_neighbours_init [of n c a b g] c e by (auto simp: keys_init)
  ultimately show "n = 0" by simp
next
  have "get_neighbours (CrystalLattice_init 0 a b g) (0, 0) = []"
    by (simp add: get_neighbours_def keys_init in_hexagon_def)
  then show "umean_neighbours (CrystalLattice_init 0 a b g) (0, 0) = NaN"
    by (simp add: umean_neighbours_def np_mean_empty)
next
  show "diffusion (CrystalLattice_init 0 a b g) = KeyError"
    by (simp add: diffusion_small_init)
next
  assume h: "1 \<le> n \<and> steps k (CrystalLattice_init n a b g) = Returned L \<and> c \<in> set (keys L)"
  then have wf: "well_formed L" by (auto intro: well_formed_steps)
  with h show ne: "get_neighbours L c \<noteq> []" by (simp add: well_formed_def)
  show "length (get_neighbours L c) \<le> 6" by (rule length_get_neighbours)
  assume us: "\<forall>d\<in>set (get_neighbours L c). \<exists>x. u (cell_at L d) = Num x \<and> 6 * \<bar>x\<bar> \<le> max_float"
  have "\<exists>m. umean_neighbours L c = Num m \<and> - (max_float / 6) \<le> m \<and> m \<le> max_float / 6"
  proof (rule umean_bounded [OF ne])
    show "\<forall>d\<in>set (get_neighbours L c).
            \<exists>x. u (cell_at L d) = Num x \<and> - (max_float / 6) \<le> x \<and> x \<le> max_float / 6"
    proof
      fix d assume "d \<in> set (get_neighbours L c)"
      with us obtain x where x: "u (cell_at L d) = Num x" "6 * \<bar>x\<bar> \<le> max_float" by blast
      from x(2) have "- (max_float / 6) \<le> x \<and> x \<le> max_float / 6" by (simp add: field_simps) arith
      with x(1) show "\<exists>x. u (cell_at L d) = Num x \<and> - (max_float / 6) \<le> x \<and> x \<le> max_float / 6"
        by blast
    qed
  qed (use max_float_ge in simp_all)
  then show "\<exists>m. umean_neighbours L c = Num m" by blast
qed

theorem umean_defined_witness:
  "(0, 0) \<in> set (keys (CrystalLattice_init 0 1 (1/2) (1/4))) \<and> get_neighbours (CrystalLattice_init 0 1 (1/2) (1/4)) (0, 0) = []
   \<and> (1::int) \<le> 1
   \<and> steps (Suc 0) (CrystalLattice_init 1 1 (1/2) (1/4)) = Returned (next_lattice (CrystalLattice_init 1 1 (1/2) (1/4)))
   \<and> (0, 0) \<in> set (keys (next_lattice (CrystalLattice_init 1 1 (1/2) (1/4))))
   \<and> get_neighbours (next_lattice (CrystalLattice_init 1 1 (1/2) (1/4))) (0, 0) \<noteq> []
   \<and> length (get_neighbours (next_lattice (CrystalLattice_init 1 1 (1/2) (1/4))) (0, 0)) \<le> 6
   \<and> list_all (\<lambda>d. u (cell_at (next_lattice (CrystalLattice_init 1 1 (1/2) (1/4))) d) = Num (1/6))
         (get_neighbours (next_lattice (CrystalLattice_init 1 1 (1/2) (1/4))) (0, 0))
   \<and> 6 * \<bar>1/6\<bar> \<le> max_float
   \<and> (\<exists>m. umean_neighbours (next_lattice (CrystalLattice_init 1 1 (1/2) (1/4))) (0, 0) = Num m)"
proof -
  have z: "(0, 0) \<in> set (keys (CrystalLattice_init 0 1 (1/2) (1/4)))" "get_neighbours (CrystalLattice_init 0 1 (1/2) (1/4)) (0, 0) = []"
    by (simp_all add: get_neighbours_def keys_init in_hexagon_def)
  have a: "steps (Suc 0) (CrystalLattice_init 1 1 (1/2) (1/4)) = Returned (next_lattice (CrystalLattice_init 1 1 (1/2) (1/4)))"
    by (rule first_step_size_one)
  have b: "(0, 0) \<in> set (keys (next_lattice (CrystalLattice_init 1 1 (1/2) (1/4))))"
    by (simp add: keys_init in_hexagon_def)
  have n: "get_neighbours (next_lattice (CrystalLattice_init 1 1 (1/2) (1/4))) (0, 0)
           = [(0, - 1), (1, - 1), (1, 0), (0, 1), (- 1, 1), (- 1, 0)]"
    by (simp add: get_neighbours_def keys_init in_hexagon_def)
  have u: "list_all (\<lambda>d. u (cell_at (next_lattice (CrystalLattice_init 1 1 (1/2) (1/4))) d) = Num (1/6))
         (get_neighbours (next_lattice (CrystalLattice_init 1 1 (1/2) (1/4))) (0, 0))"
    unfolding n by (simp add: cell_eval)
  have m: "6 * \<bar>1/6\<bar> \<le> max_float" using max_float_ge by simp
  have h: "\<forall>d\<in>set (get_neighbours (next_lattice (CrystalLattice_init 1 1 (1/2) (1/4))) (0, 0)).
             \<exists>x. u (cell_at (next_lattice (CrystalLattice_init 1 1 (1/2) (1/4))) d) = Num x \<and> 6 * \<bar>x\<bar> \<le> max_float"
    using u m unfolding list_all_iff by blast
  from a b h umean_defined [of "(0, 0)" 1 1 "1/2" "1/4" "Suc 0" "next_lattice (CrystalLattice_init 1 1 (1/2) (1/4))"]
  have "get_neighbours (next_lattice (CrystalLattice_init 1 1 (1/2) (1/4))) (0, 0) \<noteq> []
        \<and> length (get_neighbours (next_lattice (CrystalLattice_init 1 1 (1/2) (1/4))) (0, 0)) \<le> 6
        \<and> (\<exists>m. umean_neighbours (next_lattice (CrystalLattice_init 1 1 (1/2) (1/4))) (0, 0) = Num m)"
    by simp
  moreover have "(0::int) = 0"
    using z umean_defined [of "(0, 0)" 0 1 "1/2" "1/4"] by simp
  ultimately show ?thesis using z a b u m by simp
qed

section \<open>Frozen cells keep their mass\<close>

lemma nonneg_fl: "0 \<le> r \<Longrightarrow> nonneg (fl r)"
  using max_float_ge by (simp add: fl_def)

lemma nonneg_fadd: "nonneg x \<Longrightarrow> nonneg y \<Longrightarrow> nonneg (fadd x y)"
  by (cases x; cases y) (simp_all add: nonneg_fl)

lemma py_le_fl: "s \<le> r \<Longrightarrow> - max_float \<le> r \<Longrightarrow> py_le (Num s) (fl r)"
  by (simp add: fl_def)

lemma py_le_fadd_left: "nonneg x \<Longrightarrow> nonneg y \<Longrightarrow> py_le x (fadd x y)"
  using max_float_ge by (cases x; cases y) (simp_all add: py_le_fl)

lemma py_le_fadd_right: "nonneg x \<Longrightarrow> nonneg y \<Longrightarrow> py_le y (fadd x y)"
  using max_float_ge by (cases x; cases y) (simp_all add: py_le_fl)

lemma py_le_trans: "py_le x y \<Longrightarrow> py_le y z \<Longrightarrow> py_le x z"
  by (cases x; cases y; cases z) simp_all

lemma ge_one_mono: "ge_one x \<Longrightarrow> py_le x y \<Longrightarrow> ge_one y"
  by (cases x; cases y) simp_all

lemma nonneg_below_one: "nonneg x \<Longrightarrow> \<not> ge_one x \<Longrightarrow> \<exists>s. x = Num s \<and> 0 \<le> s \<and> s < 1"
  by (cases x) auto

text \<open>What a step leaves in \<open>u\<close>, in a lattice whose \<open>u\<close> are numbers between 0 and \<open>B\<close>.\<close>

lemma grown_cell:
  assumes g: "grown B L" and B: "1 \<le> B" "6 * B \<le> max_float" and h: "(c, h) \<in> set (lattice L)"
  shows "\<exists>x. u (step_cell L c h) = Num x \<and> 0 \<le> x \<and> x \<le> B"
    and "nonneg (state (step_cell L c h))"
    and "receptive_now L c \<Longrightarrow> py_le (state h) (state (step_cell L c h))"
proof -
  have c: "c \<in> set (keys L)" using h by (rule mem_keys)
  have wf: "well_formed L" using g by (simp add: grown_def)
  have ne: "get_neighbours L c \<noteq> []" using wf c by (simp add: well_formed_def)
  have "\<forall>d\<in>set (get_neighbours L c). \<exists>x. u (cell_at L d) = Num x \<and> 0 \<le> x \<and> x \<le> B"
  proof
    fix d assume "d \<in> set (get_neighbours L c)"
    then have "(d, cell_at L d) \<in> set (lattice L)"
      by (intro cell_at_in_lattice get_neighbours_in_keys)
    with g show "\<exists>x. u (cell_at L d) = Num x \<and> 0 \<le> x \<and> x \<le> B" by (auto simp: grown_def)
  qed
  from umean_bounded [OF ne this] B obtain m where
    m: "umean_neighbours L c = Num m" "0 \<le> m" "m \<le> B" by auto
  have al: "0 \<le> alpha L / 2" "alpha L / 2 \<le> 1" and ga: "0 \<le> gamma L"
    using g by (simp_all add: grown_def)
  have st: "nonneg (state h)" and fl: "receptive h \<longrightarrow> receptive_now L c"
    using g h by (auto simp: grown_def)
  define x where "x = (if receptive_now L c then 0 else (case state h of Num s \<Rightarrow> s | _ \<Rightarrow> 0))"
  have u1: "(if receptive_now L c then Num 0 else state h) = Num x" and x: "0 \<le> x" "x \<le> B"
  proof -
    show "(if receptive_now L c then Num 0 else state h) = Num x"
    proof (cases "receptive_now L c")
      case True
      then show ?thesis by (simp add: x_def)
    next
      case False
      have "ge_one (state h) \<longrightarrow> receptive_now L c"
        using cell_at_mem [OF _ h] wf by (auto simp: receptive_now_def well_formed_def)
      with False st obtain s where "state h = Num s" by (auto dest: nonneg_below_one)
      with False show ?thesis by (simp add: x_def)
    qed
    show "0 \<le> x" "x \<le> B"
    proof -
      have "ge_one (state h) \<longrightarrow> receptive_now L c"
        using cell_at_mem [OF _ h] wf by (auto simp: receptive_now_def well_formed_def)
      then have "\<not> receptive_now L c \<longrightarrow> (\<exists>s. state h = Num s \<and> 0 \<le> s \<and> s < 1)"
        using st by (auto dest: nonneg_below_one)
      then show "0 \<le> x" "x \<le> B" using B(1) by (auto simp: x_def)
    qed
  qed
  have r: "fadd (Num x) (fmul (Num (alpha L / 2)) (fsub (Num m) (Num x)))
           = Num (x + alpha L / 2 * (m - x))"
    using x m(2,3) al B by (intro relax_num [where B = B]) simp_all
  have b: "0 \<le> x + alpha L / 2 * (m - x)" "x + alpha L / 2 * (m - x) \<le> B"
    using relax_between [OF x(1) x(2) m(2) m(3) al] by simp_all
  have u: "u (step_cell L c h) = Num (x + alpha L / 2 * (m - x))"
    by (simp only: step_cell_fields m(1) u1 r)
  show "\<exists>x. u (step_cell L c h) = Num x \<and> 0 \<le> x \<and> x \<le> B" using u b by blast
  have nu: "nonneg (u (step_cell L c h))" using u b(1) by simp
  have v: "v (step_cell L c h)
           = (if receptive_now L c then fadd (state h) (Num (gamma L)) else Num 0)"
    using fl by (auto simp: step_cell_fields)
  have nv: "nonneg (v (step_cell L c h))" using st ga by (simp add: v nonneg_fadd)
  show "nonneg (state (step_cell L c h))"
    unfolding step_cell_sum using nu nv by (rule nonneg_fadd)
  assume rec: "receptive_now L c"
  have "py_le (state h) (v (step_cell L c h))"
    using st ga rec by (simp add: v py_le_fadd_left)
  moreover have "py_le (v (step_cell L c h)) (state (step_cell L c h))"
    unfolding step_cell_sum using nu nv by (rule py_le_fadd_right)
  ultimately show "py_le (state h) (state (step_cell L c h))" by (rule py_le_trans)
qed

lemma receptive_state_grows:
  assumes g: "grown B L" and B: "1 \<le> B" "6 * B \<le> max_float"
    and c: "c \<in> set (keys L)" and r: "receptive_now L c"
  shows "py_le (state (cell_at L c)) (state (cell_at (next_lattice L) c))"
  using grown_cell(3) [OF g B cell_at_in_lattice [OF c] r] by (simp add: cell_at_next [OF c])

lemma frozen_stays:
  assumes g: "grown B L" and B: "1 \<le> B" "6 * B \<le> max_float"
    and c: "c \<in> set (keys L)" and f: "ge_one (state (cell_at L c))"
  shows "ge_one (state (cell_at (next_lattice L) c))"
proof -
  have "receptive_now L c" using f by (simp add: receptive_now_def)
  from f receptive_state_grows [OF g B c this] show ?thesis by (rule ge_one_mono)
qed

lemma receptive_now_stays:
  assumes g: "grown B L" and B: "1 \<le> B" "6 * B \<le> max_float"
    and c: "c \<in> set (keys L)" and r: "receptive_now L c"
  shows "receptive_now (next_lattice L) c"
proof -
  from r consider "ge_one (state (cell_at L c))"
    | d where "d \<in> set (get_neighbours L c)" "ge_one (state (cell_at L d))"
    by (auto simp: receptive_now_def list_ex_iff)
  then show ?thesis
  proof cases
    case 1
    then show ?thesis using frozen_stays [OF g B c] by (simp add: receptive_now_def)
  next
    case 2
    then have "ge_one (state (cell_at (next_lattice L) d))"
      using frozen_stays [OF g B get_neighbours_in_keys] by blast
    with 2(1) show ?thesis by (auto simp: receptive_now_def list_ex_iff)
  qed
qed

lemma receptive_step_cell:
  "receptive (step_cell L c h) = (receptive_now L c \<or> receptive h)"
  by (simp add: step_cell_def update_cell_def reset_cell_def Let_def)

lemma grown_next:
  assumes g: "grown B L" and B: "1 \<le> B" "6 * B \<le> max_float"
  shows "grown B (next_lattice L)"
  unfolding grown_def
proof (intro conjI)
  show "well_formed (next_lattice L)" using g by (simp add: grown_def well_formed_next)
  show "0 \<le> alpha (next_lattice L)" "alpha (next_lattice L) \<le> 2" "0 \<le> gamma (next_lattice L)"
    using g by (simp_all add: grown_def)
  show "\<forall>(c, h)\<in>set (lattice (next_lattice L)).
          (\<exists>x. u h = Num x \<and> 0 \<le> x \<and> x \<le> B)
          \<and> nonneg (state h) \<and> (receptive h \<longrightarrow> receptive_now (next_lattice L) c)"
  proof (clarify)
    fix c h' assume "(c, h') \<in> set (lattice (next_lattice L))"
    then obtain h where h: "(c, h) \<in> set (lattice L)" "h' = step_cell L c h"
      by (auto simp: mem_next_lattice)
    have c: "c \<in> set (keys L)" using h(1) by (rule mem_keys)
    have fl: "receptive h \<longrightarrow> receptive_now L c" using g h(1) by (auto simp: grown_def)
    have 3: "receptive h' \<longrightarrow> receptive_now (next_lattice L) c"
      using fl receptive_now_stays [OF g B c] by (auto simp: h(2) receptive_step_cell)
    from grown_cell(1,2) [OF g B h(1)] 3
    show "(\<exists>x. u h' = Num x \<and> 0 \<le> x \<and> x \<le> B)
          \<and> nonneg (state h') \<and> (receptive h' \<longrightarrow> receptive_now (next_lattice L) c)"
      unfolding h(2) by blast
  qed
qed

lemma grown_init:
  assumes "1 \<le> n" "0 \<le> a" "a \<le> 2" "0 \<le> b" "0 \<le> g"
  shows "grown (max b 1) (CrystalLattice_init n a b g)"
  unfolding grown_def
proof (intro conjI)
  show "well_formed (CrystalLattice_init n a b g)" using assms(1) by (rule well_formed_init)
  show "0 \<le> alpha (CrystalLattice_init n a b g)" "alpha (CrystalLattice_init n a b g) \<le> 2"
    "0 \<le> gamma (CrystalLattice_init n a b g)"
    using assms by simp_all
  show "\<forall>(c, h)\<in>set (lattice (CrystalLattice_init n a b g)).
          (\<exists>x. u h = Num x \<and> 0 \<le> x \<and> x \<le> max b 1) \<and> nonneg (state h)
          \<and> (receptive h \<longrightarrow> receptive_now (CrystalLattice_init n a b g) c)"
    using assms(4) by (auto simp: mem_lattice_init initial_cell_def split: if_splits)
qed

lemma grown_steps:
  assumes "1 \<le> n" "0 \<le> a" "a \<le> 2" "0 \<le> b" "0 \<le> g" and B: "6 * b \<le> max_float"
  shows "steps k (CrystalLattice_init n a b g) = Returned L \<Longrightarrow> grown (max b 1) L"
proof (induction k arbitrary: L)
  case 0
  then show ?case using grown_init [OF assms(1-5)] by auto
next
  case (Suc k)
  from steps_Suc_Returned [OF Suc.prems] obtain L' where
    L': "steps k (CrystalLattice_init n a b g) = Returned L'" "diffusion L' = Returned L" by blast
  have g: "grown (max b 1) L'" using L'(1) by (rule Suc.IH)
  then have "distinct (keys L')" by (simp add: grown_def well_formed_def)
  moreover have "1 \<le> max b 1" "6 * max b 1 \<le> max_float" using B max_float_ge by auto
  ultimately show ?case using diffusion_Returned [OF _ L'(2)] g by (simp add: grown_next)
qed

text \<open>
  Under these parameters the mean over the neighbours is a number, between 0 and
  \<open>max beta 1\<close>, at every cell of every lattice that the run reaches.
\<close>

lemma umean_number_in_runs:
  assumes "1 \<le> n" "0 \<le> a" "a \<le> 2" "0 \<le> b" "0 \<le> g" "6 * b \<le> max_float"
    and "steps k (CrystalLattice_init n a b g) = Returned L" and c: "c \<in> set (keys L)"
  shows "\<exists>m. umean_neighbours L c = Num m \<and> 0 \<le> m \<and> m \<le> max b 1"
proof -
  have g: "grown (max b 1) L" using assms(1-7) by (rule grown_steps)
  then have ne: "get_neighbours L c \<noteq> []" using c by (simp add: grown_def well_formed_def)
  have us: "\<forall>d\<in>set (get_neighbours L c).
              \<exists>x. u (cell_at L d) = Num x \<and> 0 \<le> x \<and> x \<le> max b 1"
  proof
    fix d assume "d \<in> set (get_neighbours L c)"
    then have "(d, cell_at L d) \<in> set (lattice L)"
      by (intro cell_at_in_lattice get_neighbours_in_keys)
    with g show "\<exists>x. u (cell_at L d) = Num x \<and> 0 \<le> x \<and> x \<le> max b 1"
      by (auto simp: grown_def)
  qed
  have "6 * max b 1 \<le> max_float" using assms(6) max_float_ge by auto
  with umean_bounded [OF ne us] show ?thesis by simp
qed






section \<open>The order of the cells within a loop\<close>

lemma permutation_keys:
  assumes "distinct (keys L)" "mset ks = mset (keys L)"
  shows "distinct ks" and "set ks = set (keys L)"
  using assms by (metis mset_eq_imp_distinct_iff, metis mset_eq_setD)

lemma diffusion_on_eq:
  assumes d: "distinct (keys L)"
    and p: "mset ks1 = mset (keys L)" "mset ks2 = mset (keys L)" "mset ks3 = mset (keys L)"
  shows "diffusion_on ks1 ks2 ks3 L = diffusion L"
proof (cases "all_ends_frozen L = Returned False")
  case True
  have "diffusion_on ks1 ks2 ks3 L = Returned (next_lattice L)"
    using d True permutation_keys [OF d p(1)] permutation_keys [OF d p(2)]
      permutation_keys [OF d p(3)]
    by (rule diffusion_on_next)
  with d True show ?thesis by (simp add: diffusion_next)
next
  case False
  with all_ends_frozen_cases [of L] show ?thesis
    by (auto simp: diffusion_on_def diffusion_def)
qed

text \<open>
  C9: a step, and so a run of any number of steps, is a function of the lattice it starts
  from, and the order in which each loop visits the cells does not matter: when the
  three loops of every step run over any permutations of the keys, the run ends in the
  same outcome, with the same lattice, as the run of the code.
\<close>

theorem iteration_order_irrelevant:
  assumes "distinct (keys L)"
    and "\<forall>i<k. mset (ks1 i) = mset (keys L) \<and> mset (ks2 i) = mset (keys L)
            \<and> mset (ks3 i) = mset (keys L)"
  shows "steps_on ks1 ks2 ks3 k L = steps k L"
  using assms(2)
proof (induction k)
  case 0
  show ?case by simp
next
  case (Suc k)
  then have IH: "steps_on ks1 ks2 ks3 k L = steps k L" by simp
  show ?case
  proof (cases "steps k L")
    case (Returned L')
    have k: "keys L' = keys L" using assms(1) Returned by (rule keys_steps)
    have "diffusion_on (ks1 k) (ks2 k) (ks3 k) L' = diffusion L'"
      using assms(1) Suc.prems by (intro diffusion_on_eq) (simp_all add: k)
    then show ?thesis by (simp add: IH Returned)
  qed (simp_all add: IH)
qed

theorem iteration_order_irrelevant_witness:
  "distinct (keys (CrystalLattice_init 2 1 (1/2) (1/1000)))
   \<and> mset (rev (keys (CrystalLattice_init 2 1 (1/2) (1/1000))))
       = mset (keys (CrystalLattice_init 2 1 (1/2) (1/1000)))
   \<and> steps_on (\<lambda>i. rev (keys (CrystalLattice_init 2 1 (1/2) (1/1000))))
        (\<lambda>i. keys (CrystalLattice_init 2 1 (1/2) (1/1000)))
        (\<lambda>i. rev (keys (CrystalLattice_init 2 1 (1/2) (1/1000)))) 3
        (CrystalLattice_init 2 1 (1/2) (1/1000))
     = steps 3 (CrystalLattice_init 2 1 (1/2) (1/1000))"
proof -
  have d: "distinct (keys (CrystalLattice_init 2 1 (1/2) (1/1000)))"
    by (rule distinct_keys_init)
  have p: "\<forall>i<3. mset (rev (keys (CrystalLattice_init 2 1 (1/2) (1/1000))))
              = mset (keys (CrystalLattice_init 2 1 (1/2) (1/1000)))
            \<and> mset (keys (CrystalLattice_init 2 1 (1/2) (1/1000)))
              = mset (keys (CrystalLattice_init 2 1 (1/2) (1/1000)))
            \<and> mset (rev (keys (CrystalLattice_init 2 1 (1/2) (1/1000))))
              = mset (keys (CrystalLattice_init 2 1 (1/2) (1/1000)))"
    by simp
  from iteration_order_irrelevant [OF d p] d show ?thesis by simp
qed

section \<open>The receptive flag\<close>

lemma receptive_diffusion:
  assumes "distinct (keys L)" "diffusion L = Returned L'" "c \<in> set (keys L)"
  shows "receptive (cell_at L' c) = (receptive (cell_at L c) \<or> if_receptive L c = Returned True)"
  using diffusion_Returned [OF assms(1,2)] assms(3)
  by (auto simp: cell_at_next receptive_step_cell if_receptive_now)

lemma receptive_stays:
  assumes "steps j (CrystalLattice_init n a b g) = Returned Lj"
    and "c \<in> set (keys Lj)" "receptive (cell_at Lj c)"
    and "steps (j + d) (CrystalLattice_init n a b g) = Returned Lk"
  shows "receptive (cell_at Lk c)"
  using assms(4)
proof (induction d arbitrary: Lk)
  case 0
  with assms show ?case by simp
next
  case (Suc d)
  from Suc.prems have "steps (Suc (j + d)) (CrystalLattice_init n a b g) = Returned Lk" by simp
  from steps_Suc_Returned [OF this] obtain L' where
    L': "steps (j + d) (CrystalLattice_init n a b g) = Returned L'" "diffusion L' = Returned Lk"
    by blast
  have r: "receptive (cell_at L' c)" using L'(1) by (rule Suc.IH)
  have d: "distinct (keys L')" using L'(1) by (rule distinct_keys_steps)
  have "keys L' = keys Lj"
    using keys_steps [OF distinct_keys_init L'(1)] keys_steps [OF distinct_keys_init assms(1)]
    by simp
  with assms(2) have "c \<in> set (keys L')" by simp
  from receptive_diffusion [OF d L'(2) this] r show ?case by simp
qed

text \<open>
  C10: every cell is constructed with the receptive flag \<^verbatim>\<open>False\<close>; a step leaves a cell's
  flag \<^verbatim>\<open>True\<close> exactly when it was \<^verbatim>\<open>True\<close> before or the step classifies the cell as
  receptive (nothing assigns \<^verbatim>\<open>False\<close>); so in a run from a constructed lattice a flag that
  is \<^verbatim>\<open>True\<close> after \<open>j\<close> steps is \<^verbatim>\<open>True\<close> after any later number of steps.
\<close>

theorem receptive_flag_monotone:
  "(\<forall>(c, h)\<in>set (lattice (CrystalLattice_init n a b g)). \<not> receptive h)
   \<and> (distinct (keys L) \<and> diffusion L = Returned L' \<and> c \<in> set (keys L) \<longrightarrow>
        receptive (cell_at L' c)
          = (receptive (cell_at L c) \<or> if_receptive L c = Returned True))
   \<and> (steps j (CrystalLattice_init n a b g) = Returned Lj \<and> c \<in> set (keys Lj)
        \<and> receptive (cell_at Lj c)
        \<and> steps (j + d) (CrystalLattice_init n a b g) = Returned Lk \<longrightarrow>
        receptive (cell_at Lk c))"
proof (intro conjI impI)
  show "\<forall>(c, h)\<in>set (lattice (CrystalLattice_init n a b g)). \<not> receptive h"
    by (auto simp: mem_lattice_init initial_cell_def split: if_splits)
next
  assume "distinct (keys L) \<and> diffusion L = Returned L' \<and> c \<in> set (keys L)"
  then show "receptive (cell_at L' c)
          = (receptive (cell_at L c) \<or> if_receptive L c = Returned True)"
    by (intro receptive_diffusion) simp_all
next
  assume "steps j (CrystalLattice_init n a b g) = Returned Lj \<and> c \<in> set (keys Lj)
        \<and> receptive (cell_at Lj c)
        \<and> steps (j + d) (CrystalLattice_init n a b g) = Returned Lk"
  then show "receptive (cell_at Lk c)"
    using receptive_stays [of j n a b g Lj c d Lk] by simp
qed

theorem receptive_flag_monotone_witness:
  "steps 1 (CrystalLattice_init 1 1 (1/2) (1/4))
     = Returned (lattice_after 1 (CrystalLattice_init 1 1 (1/2) (1/4)))
   \<and> (1, 0) \<in> set (keys (lattice_after 1 (CrystalLattice_init 1 1 (1/2) (1/4))))
   \<and> receptive (cell_at (lattice_after 1 (CrystalLattice_init 1 1 (1/2) (1/4))) (1, 0))
   \<and> steps (1 + 1) (CrystalLattice_init 1 1 (1/2) (1/4))
     = Returned (lattice_after 2 (CrystalLattice_init 1 1 (1/2) (1/4)))
   \<and> receptive (cell_at (lattice_after 2 (CrystalLattice_init 1 1 (1/2) (1/4))) (1, 0))"
proof -
  have a: "steps 1 (CrystalLattice_init 1 1 (1/2) (1/4))
     = Returned (lattice_after 1 (CrystalLattice_init 1 1 (1/2) (1/4)))"
    using sample_first_step by simp
  have b: "(1, 0) \<in> set (keys (lattice_after 1 (CrystalLattice_init 1 1 (1/2) (1/4))))"
    by (rule sample_flag)
  have c: "receptive (cell_at (lattice_after 1 (CrystalLattice_init 1 1 (1/2) (1/4))) (1, 0))"
    by (rule sample_flag)
  have d: "steps (1 + 1) (CrystalLattice_init 1 1 (1/2) (1/4))
     = Returned (lattice_after 2 (CrystalLattice_init 1 1 (1/2) (1/4)))"
    unfolding one_add_one by (rule sample_two_steps)
  from a b c d
    receptive_flag_monotone [of 1 1 "1/2" "1/4" L L' "(1, 0)" 1
      "lattice_after 1 (CrystalLattice_init 1 1 (1/2) (1/4))" 1
      "lattice_after 2 (CrystalLattice_init 1 1 (1/2) (1/4))"]
  show ?thesis by blast
qed

section \<open>A run in which cells thaw\<close>

lemma thaw_quiet_0: "all_ends_frozen thaw_lattice = Returned False"
  unfolding thaw_lattice_def
  by (rule detector_quiet [where e = "(0, - 2)" and f = "(0, 0)"])
    (simp_all add: ends_missing_keys branch_ends_def branch_end_list_def cell_eval)

lemma thaw_quiet_1: "all_ends_frozen (next_lattice thaw_lattice) = Returned False"
  unfolding thaw_lattice_def
  by (rule detector_quiet [where e = "(0, - 2)" and f = "(0, 0)"])
    (simp_all add: ends_missing_keys branch_ends_def branch_end_list_def cell_eval)

lemma thaw_quiet_2: "all_ends_frozen (next_lattice (next_lattice thaw_lattice)) = Returned False"
  unfolding thaw_lattice_def
  by (rule detector_quiet [where e = "(0, - 2)" and f = "(0, 0)"])
    (simp_all add: ends_missing_keys branch_ends_def branch_end_list_def cell_eval)

lemma thaw_quiet_3:
  "all_ends_frozen (next_lattice (next_lattice (next_lattice thaw_lattice))) = Returned False"
  unfolding thaw_lattice_def
  by (rule detector_quiet [where e = "(0, - 2)" and f = "(0, 0)"])
    (simp_all add: ends_missing_keys branch_ends_def branch_end_list_def cell_eval)

lemma thaw_distinct: "distinct (keys thaw_lattice)"
  by (simp add: thaw_lattice_def distinct_keys_init)

lemma thaw_steps:
  "steps 3 thaw_lattice = Returned (next_lattice (next_lattice (next_lattice thaw_lattice)))"
  "steps 4 thaw_lattice
     = Returned (next_lattice (next_lattice (next_lattice (next_lattice thaw_lattice))))"
  by (simp_all add: numeral_eq_Suc diffusion_next thaw_distinct
      thaw_quiet_0 thaw_quiet_1 thaw_quiet_2 thaw_quiet_3)

lemma thaw_not_receptive:
  "receptive_now (next_lattice (next_lattice (next_lattice thaw_lattice))) (0, - 2) = False"
  unfolding thaw_lattice_def by (simp add: cell_eval)

lemma thaw_flag:
  "receptive (cell_at (next_lattice (next_lattice thaw_lattice)) (0, - 2)) = False"
  "receptive_now (next_lattice (next_lattice thaw_lattice)) (0, - 2) = True"
  unfolding thaw_lattice_def by (simp_all add: cell_eval)

text \<open>
  C3, as the claim states it, fails: the third loop adds \<^verbatim>\<open>gamma\<close> where the cell's flag is
  set, and the flag stays set from earlier steps. In the run of
  \<^verbatim>\<open>CrystalLattice(3, -4, 0.25, 0.5)\<close> the third step sets the flag of the cell \<open>(0, -2)\<close>, next to
  the frozen cell \<open>(0, -1)\<close>, which thaws in that step; the fourth step does not classify
  \<open>(0, -2)\<close> as receptive, resets its \<open>v\<close> to 0, and still adds \<^verbatim>\<open>gamma = 0.5\<close> to it.
\<close>

theorem stale_flag_gets_gamma:
  "steps 3 thaw_lattice = Returned (lattice_after 3 thaw_lattice)
   \<and> if_receptive (lattice_after 3 thaw_lattice) (0, - 2) = Returned False
   \<and> steps 4 thaw_lattice = Returned (lattice_after 4 thaw_lattice)
   \<and> v (cell_at (lattice_after 4 thaw_lattice) (0, - 2)) = Num (1/2)"
proof -
  let ?L3 = "next_lattice (next_lattice (next_lattice thaw_lattice))"
  have 3: "lattice_after 3 thaw_lattice = ?L3" by (simp add: lattice_after_def thaw_steps)
  have 4: "lattice_after 4 thaw_lattice = next_lattice ?L3"
    by (simp add: lattice_after_def thaw_steps)
  have k: "(0, - 2) \<in> set (keys ?L3)"
    by (simp add: thaw_lattice_def keys_init in_hexagon_def)
  have k2: "(0, - 2) \<in> set (keys (next_lattice (next_lattice thaw_lattice)))"
    by (simp add: thaw_lattice_def keys_init in_hexagon_def)
  have r: "if_receptive ?L3 (0, - 2) = Returned False"
    using if_receptive_now [OF k] by (simp add: thaw_not_receptive)
  have f: "receptive (cell_at ?L3 (0, - 2))"
    by (simp add: cell_at_next [OF k2] receptive_step_cell thaw_flag)
  have "v (cell_at (next_lattice ?L3) (0, - 2)) = fadd (Num 0) (Num (gamma ?L3))"
    by (simp add: cell_at_next [OF k] step_cell_fields thaw_not_receptive f)
  then have v: "v (cell_at (next_lattice ?L3) (0, - 2)) = Num (1/2)"
    by (simp add: thaw_lattice_def fl_small)
  show ?thesis by (simp add: 3 4 thaw_steps r v)
qed

section \<open>What a step does to a cell\<close>

text \<open>
  C3 (amended): for every cell of the lattice, one step classifies the cell as receptive
  iff its own state or the state of a neighbour in the lattice is at least 1 (on the
  states before the step), sets \<open>u \<leftarrow> 0\<close>, \<open>v \<leftarrow> state\<close> for a receptive cell and
  \<open>u \<leftarrow> state\<close>, \<open>v \<leftarrow> 0\<close> otherwise, then sets \<open>u \<leftarrow> u + alpha/2 * (meanU - u)\<close>, adds \<^verbatim>\<open>gamma\<close>
  to \<open>v\<close> exactly for the cells whose flag is set, which are the cells classified as
  receptive in this step or whose flag was set before it, and sets \<open>state \<leftarrow> u + v\<close>.
\<close>

theorem step_of_a_cell:
  assumes "distinct (keys L)" "diffusion L = Returned L'" "map_of (lattice L) c = Some h"
  shows "\<exists>h'. map_of (lattice L') c = Some h'
     \<and> (let rec = (ge_one (state h)
                     \<or> (\<exists>d\<in>set (get_neighbours L c). ge_one (state (cell_at L d))));
             u1 = (if rec then Num 0 else state h);
             v1 = (if rec then state h else Num 0);
             u2 = fadd u1 (fmul (Num (alpha L / 2)) (fsub (umean_neighbours L c) u1));
             v2 = (if rec \<or> receptive h then fadd v1 (Num (gamma L)) else v1)
         in if_receptive L c = Returned rec
            \<and> mean_u h' = umean_neighbours L c
            \<and> u h' = u2 \<and> v h' = v2 \<and> state h' = fadd u2 v2
            \<and> receptive h' = (rec \<or> receptive h))"
proof -
  have L': "L' = next_lattice L" using diffusion_Returned [OF assms(1,2)] by simp
  have c: "c \<in> set (keys L)"
    using map_of_SomeD [OF assms(3)] by (rule mem_keys)
  have h: "cell_at L c = h" using assms(3) by (simp add: cell_at_def)
  have rec: "receptive_now L c
       = (ge_one (state h) \<or> (\<exists>d\<in>set (get_neighbours L c). ge_one (state (cell_at L d))))"
    by (simp add: receptive_now_def h list_ex_iff)
  have m: "map_of (lattice L') c = Some (step_cell L c h)"
    by (simp add: L' next_lattice_def map_of_map_cells assms(3))
  show ?thesis
    unfolding m Let_def rec [symmetric]
    by (simp add: if_receptive_now [OF c] step_cell_fields step_cell_sum receptive_step_cell)
qed

theorem step_of_a_cell_witness:
  "distinct (keys (CrystalLattice_init 1 1 (1/2) (1/4)))
   \<and> diffusion (CrystalLattice_init 1 1 (1/2) (1/4))
       = Returned (lattice_after 1 (CrystalLattice_init 1 1 (1/2) (1/4)))
   \<and> map_of (lattice (CrystalLattice_init 1 1 (1/2) (1/4))) (1, 0)
       = Some \<lparr>u = Num (1/2), v = Num 0, state = Num (1/2), mean_u = Num 0, receptive = False\<rparr>
   \<and> (\<exists>h'. map_of (lattice (lattice_after 1 (CrystalLattice_init 1 1 (1/2) (1/4)))) (1, 0) = Some h'
        \<and> mean_u h' = umean_neighbours (CrystalLattice_init 1 1 (1/2) (1/4)) (1, 0)
        \<and> state h' = fadd (u h') (v h'))"
proof -
  have d: "distinct (keys (CrystalLattice_init 1 1 (1/2) (1/4)))" by (rule distinct_keys_init)
  have s: "diffusion (CrystalLattice_init 1 1 (1/2) (1/4))
       = Returned (lattice_after 1 (CrystalLattice_init 1 1 (1/2) (1/4)))"
    unfolding sample_after_one using first_step_size_one [of 1 "1/2" "1/4"] by simp
  have m: "map_of (lattice (CrystalLattice_init 1 1 (1/2) (1/4))) (1, 0)
       = Some \<lparr>u = Num (1/2), v = Num 0, state = Num (1/2), mean_u = Num 0, receptive = False\<rparr>"
    by (simp add: map_of_init keys_init in_hexagon_def initial_cell_def)
  from step_of_a_cell [OF d s m] obtain h' where
    h': "map_of (lattice (lattice_after 1 (CrystalLattice_init 1 1 (1/2) (1/4)))) (1, 0) = Some h'"
    and f: "mean_u h' = umean_neighbours (CrystalLattice_init 1 1 (1/2) (1/4)) (1, 0)
            \<and> state h' = fadd (u h') (v h')"
    unfolding Let_def by fastforce
  from h' f have "\<exists>h'. map_of (lattice (lattice_after 1 (CrystalLattice_init 1 1 (1/2) (1/4)))) (1, 0) = Some h'
        \<and> mean_u h' = umean_neighbours (CrystalLattice_init 1 1 (1/2) (1/4)) (1, 0)
        \<and> state h' = fadd (u h') (v h')"
    by blast
  with d s m show ?thesis by (intro conjI)
qed

text \<open>
  In a run from a constructed lattice under \<open>0 \<le> alpha \<le> 2\<close>, \<open>beta \<ge> 0\<close> and \<open>gamma \<ge> 0\<close>,
  with \<open>6 * beta\<close> within the range of the doubles, no frozen cell thaws, so a flag that is set belongs to a cell that the next step
  classifies as receptive: there the cells that get \<^verbatim>\<open>gamma\<close> are the cells classified in
  the same step.
\<close>

lemma flag_set_only_if_receptive:
  assumes "0 \<le> a" "a \<le> 2" "0 \<le> b" "0 \<le> g" "6 * b \<le> max_float"
    and "steps k (CrystalLattice_init n a b g) = Returned L"
    and "(c, h) \<in> set (lattice L)" "receptive h"
  shows "if_receptive L c = Returned True"
proof (cases k)
  case 0
  with assms(6) have "L = CrystalLattice_init n a b g" by simp
  with assms(7) have "h = initial_cell b (snd c) (fst c)"
    by (cases c rule: prod.exhaust) (simp add: mem_lattice_init)
  with assms(8) show ?thesis by (simp add: initial_cell_def split: if_splits)
next
  case (Suc k')
  with assms(6) have "steps (Suc k') (CrystalLattice_init n a b g) = Returned L" by simp
  then have "1 \<le> n" by (rule steps_Suc_size)
  then have "grown (max b 1) L" using assms(1,2,3,4,5,6) by (rule grown_steps)
  with assms(7,8) have "receptive_now L c" by (auto simp: grown_def)
  then show ?thesis using mem_keys [OF assms(7)] by (simp add: if_receptive_now)
qed

section \<open>A run in which nothing changes\<close>

lemma state_init:
  "in_hexagon n c \<Longrightarrow>
   state (cell_at (CrystalLattice_init n a b g) c) = (if c = (0, 0) then Num 1 else Num b)"
  by (cases c rule: prod.exhaust) (auto simp: cell_at_init initial_cell_def)

lemma still_init: "1 \<le> n \<Longrightarrow> still n b (CrystalLattice_init n 0 b 0)"
  by (auto simp: still_def well_formed_init keys_init cell_at_init initial_cell_def)

lemma still_next:
  assumes s: "still n b L" and b: "b < 1" "- max_float \<le> 6 * b"
  shows "still n b (next_lattice L)"
proof -
  have wf: "well_formed L" and p: "alpha L = 0" "gamma L = 0"
    and k: "keys L = keys (CrystalLattice_init n 0 b 0)"
    using s by (simp_all add: still_def)
  define B where "B = max \<bar>b\<bar> 1"
  have B: "2 * B \<le> max_float" "\<bar>b\<bar> \<le> B" "1 \<le> B" "B \<le> max_float"
    using b max_float_ge by (auto simp: B_def)
  have step: "state (cell_at (next_lattice L) c) = state (cell_at L c)
              \<and> (\<exists>x. u (cell_at (next_lattice L) c) = Num x \<and> min b 0 \<le> x \<and> x \<le> max b 0)"
    if c: "c \<in> set (keys L)" for c
  proof -
    have h: "in_hexagon n c" using c by (simp add: k keys_init)
    define t where "t = (if c = (0, 0) then 1 else b)"
    have t: "state (cell_at L c) = Num t"
      using s c by (simp add: still_def state_init [OF h] t_def)
    have tB: "\<bar>t\<bar> \<le> B" using B by (simp add: t_def)
    have ne: "get_neighbours L c \<noteq> []" using wf c by (simp add: well_formed_def)
    have us: "\<forall>d\<in>set (get_neighbours L c).
                \<exists>x. u (cell_at L d) = Num x \<and> min b 0 \<le> x \<and> x \<le> max b 0"
    proof
      fix d assume "d \<in> set (get_neighbours L c)"
      then have "d \<in> set (keys L)" by (rule get_neighbours_in_keys)
      with s show "\<exists>x. u (cell_at L d) = Num x \<and> min b 0 \<le> x \<and> x \<le> max b 0"
        unfolding still_def by blast
    qed
    have "min b 0 \<le> 0" "- max_float \<le> 6 * min b 0" "0 \<le> max b 0" "6 * max b 0 \<le> max_float"
      using b max_float_ge by auto
    from umean_bounded [OF ne us this] obtain m where
      m: "umean_neighbours L c = Num m" "min b 0 \<le> m" "m \<le> max b 0" by blast
    have mB: "\<bar>m\<bar> \<le> B" using m(2,3) B(2,3) by auto
    define x where "x = (if receptive_now L c then 0 else t)"
    have x1: "(if receptive_now L c then Num 0 else state (cell_at L c)) = Num x"
      by (simp add: x_def t)
    have xB: "\<bar>x\<bar> \<le> B" using tB B(3) by (simp add: x_def)
    have "\<not> receptive_now L c \<Longrightarrow> t = b"
      using t by (auto simp: receptive_now_def t_def)
    then have xb: "min b 0 \<le> x" "x \<le> max b 0" by (auto simp: x_def)
    have "fadd (Num x) (fmul (Num 0) (fsub (Num m) (Num x))) = Num (x + 0 * (m - x))"
      using xB mB _ _ B(1) by (rule relax_num) simp_all
    then have r: "fadd (Num x) (fmul (Num (alpha L / 2)) (fsub (Num m) (Num x))) = Num x"
      by (simp add: p)
    have u: "u (step_cell L c (cell_at L c)) = Num x"
      by (simp only: step_cell_fields m(1) x1 r)
    have f: "fl t = Num t" "fl 0 = Num 0"
      using tB B(4) max_float_ge by (auto intro!: fl_Num)
    have v: "v (step_cell L c (cell_at L c)) = (if receptive_now L c then Num t else Num 0)"
      by (simp add: step_cell_fields t p f)
    have "state (step_cell L c (cell_at L c)) = Num t"
      unfolding step_cell_sum u v by (simp add: x_def f)
    with u xb show ?thesis by (simp add: cell_at_next [OF c] t)
  qed
  show ?thesis
    unfolding still_def
  proof (intro conjI)
    show "well_formed (next_lattice L)" using wf by (rule well_formed_next)
    show "alpha (next_lattice L) = 0" "gamma (next_lattice L) = 0" using p by simp_all
    show "lattice_size (next_lattice L) = n" using s by (simp add: still_def)
    show "keys (next_lattice L) = keys (CrystalLattice_init n 0 b 0)" using k by simp
    show "\<forall>c\<in>set (keys (next_lattice L)).
            state (cell_at (next_lattice L) c) = state (cell_at (CrystalLattice_init n 0 b 0) c)
            \<and> (\<exists>x. u (cell_at (next_lattice L) c) = Num x \<and> min b 0 \<le> x \<and> x \<le> max b 0)"
      using step s by (simp add: still_def)
  qed
qed

lemma length_filter_eq:
  "distinct xs \<Longrightarrow> x \<in> set xs \<Longrightarrow> length (filter (\<lambda>y. y = x) xs) = 1"
  by (induction xs) (auto simp: filter_empty_conv)

lemma still_count:
  assumes "still n b L" "0 \<le> n" "b < 1"
  shows "count_frozen L = 1"
proof -
  have k: "keys L = keys (CrystalLattice_init n 0 b 0)" using assms(1) by (simp add: still_def)
  have "filter (\<lambda>hex. ge_one (state (cell_at L hex))) (keys L)
        = filter (\<lambda>hex. hex = (0, 0)) (keys L)"
  proof (rule filter_cong [OF refl])
    fix c assume c: "c \<in> set (keys L)"
    then have h: "in_hexagon n c" by (simp add: k keys_init)
    have "state (cell_at L c) = state (cell_at (CrystalLattice_init n 0 b 0) c)"
      using assms(1) c by (simp add: still_def)
    then show "ge_one (state (cell_at L c)) = (c = (0, 0))"
      using assms(3) by (simp add: state_init [OF h])
  qed
  moreover have "(0, 0) \<in> set (keys L)" using assms(2) by (simp add: k keys_init in_hexagon_def)
  moreover have "distinct (keys L)" by (simp add: k distinct_keys_init)
  ultimately show ?thesis by (simp add: count_frozen_def length_filter_eq)
qed

lemma still_quiet:
  assumes s: "still n b L" and n: "2 \<le> n" and b: "b < 1"
  shows "all_ends_frozen L = Returned False"
proof (rule detector_quiet [where e = "(n - 1, 0)" and f = "(0, 0)"])
  have k: "keys L = keys (CrystalLattice_init n 0 b 0)" and z: "lattice_size L = n"
    using s by (simp_all add: still_def)
  have st: "state (cell_at L c) = (if c = (0, 0) then Num 1 else Num b)" if "in_hexagon n c" for c
    using s that by (simp add: still_def keys_init state_init)
  show "\<not> ends_missing L"
    using n by (auto simp: ends_missing_keys z k keys_init branch_ends_def branch_end_list_def
        in_hexagon_def)
  show "(n - 1, 0) \<in> set (branch_ends (lattice_size L))"
    by (simp add: z branch_ends_def branch_end_list_def)
  have "in_hexagon n (n - 1, 0)" using n by (simp add: in_hexagon_def)
  from st [OF this] show "\<not> ge_one (state (cell_at L (n - 1, 0)))" using n b by simp
  have i: "in_hexagon n (0, 0)" using n by (simp add: in_hexagon_def)
  then show "(0, 0) \<in> set (keys L)" by (simp add: k keys_init)
  from st [OF i] show "ge_one (state (cell_at L (0, 0)))" by simp
qed

lemma still_steps:
  assumes "2 \<le> n" "b < 1" "- max_float \<le> 6 * b"
  shows "\<exists>L. steps k (CrystalLattice_init n 0 b 0) = Returned L \<and> still n b L"
proof (induction k)
  case 0
  show ?case using assms(1) by (simp add: still_init)
next
  case (Suc k)
  then obtain L where L: "steps k (CrystalLattice_init n 0 b 0) = Returned L" "still n b L"
    by blast
  have "distinct (keys L)" using L(2) by (simp add: still_def distinct_keys_init)
  then have "diffusion L = Returned (next_lattice L)"
    using still_quiet [OF L(2) assms(1,2)] by (rule diffusion_next)
  with L still_next [OF L(2) assms(2,3)] show ?case by simp
qed

text \<open>
  The bound on \<^verbatim>\<open>beta\<close> from below is needed. For a \<^verbatim>\<open>beta\<close> below half the most negative
  double, as in \<^verbatim>\<open>CrystalLattice(2, 0, -1e308, 0)\<close>, the sum of the \<open>u\<close> of the centre's
  neighbours overflows to \<^verbatim>\<open>-inf\<close>, the first step multiplies it by 0 and leaves \<^verbatim>\<open>nan\<close> in
  the centre's state: after the step no cell is frozen, the count 0 is compared with the
  0 that \<^verbatim>\<open>frozen_list\<close> starts with, and the detector exits.
\<close>

lemma fmul_zero: "fmul (Num 0) y = Num 0 \<or> fmul (Num 0) y = NaN"
  using max_float_ge by (cases y) (simp_all add: fl_def signed_inf_def)

lemma below_one_stays:
  assumes p: "alpha L = 0" "gamma L = 0" and s: "state h = Num t" "t < 1" "- max_float \<le> t"
  shows "\<not> ge_one (state (step_cell L c h))"
proof -
  have f: "fl t = Num t" "fl 0 = Num 0" using s(2,3) max_float_ge by (auto intro!: fl_Num)
  define x where "x = (if receptive_now L c then 0 else t)"
  have x: "(if receptive_now L c then Num 0 else state h) = Num x" by (simp add: x_def s(1))
  have fx: "fl x = Num x" by (simp add: x_def f)
  have "fadd (Num x) (fmul (Num 0) (fsub (umean_neighbours L c) (Num x))) = Num x
        \<or> fadd (Num x) (fmul (Num 0) (fsub (umean_neighbours L c) (Num x))) = NaN"
    using fmul_zero [of "fsub (umean_neighbours L c) (Num x)"] by (auto simp: fx)
  then have u: "u (step_cell L c h) = Num x \<or> u (step_cell L c h) = NaN"
    by (simp only: step_cell_fields x p) simp
  have v: "v (step_cell L c h) = (if receptive_now L c then Num t else Num 0)"
    by (simp add: step_cell_fields s(1) p f)
  from u have "state (step_cell L c h) = Num t \<or> state (step_cell L c h) = NaN"
    unfolding step_cell_sum v by (auto simp: x_def f)
  with s(2) show ?thesis by auto
qed

lemma stall_bound_needed:
  assumes b: "- max_float \<le> b" "2 * b < - max_float"
  shows "count_after 1 (CrystalLattice_init 2 0 b 0) = Returned 0
     \<and> detector_after 1 (CrystalLattice_init 2 0 b 0) = Exited [Print 0 b 0, SaveImage b 0]"
proof -
  let ?X = "CrystalLattice_init 2 0 b 0"
  have b1: "b < 1" using b max_float_ge by simp
  have st: "still 2 b ?X" by (rule still_init) simp
  have "all_ends_frozen ?X = Returned False" using st _ b1 by (rule still_quiet) simp
  then have d: "steps 1 ?X = Returned (next_lattice ?X)"
    by (simp add: diffusion_next distinct_keys_init)
  have f: "fl b = Num b" "fl (2 * b) = NInf" "fl (b + b) = NInf" "fl 1 = Num 1"
    using b max_float_ge by (simp_all add: fl_def)
  have centre: "state (cell_at (next_lattice ?X) (0, 0)) = NaN"
    by (simp add: cell_eval f signed_inf_def)
  have none: "\<not> ge_one (state (cell_at (next_lattice ?X) c))" if c: "c \<in> set (keys ?X)" for c
  proof (cases "c = (0, 0)")
    case True
    show ?thesis unfolding True centre by simp
  next
    case False
    have h: "in_hexagon 2 c" using c by (simp add: keys_init)
    have "state (cell_at ?X c) = Num b" using False by (simp add: state_init [OF h])
    then have "\<not> ge_one (state (step_cell ?X c (cell_at ?X c)))"
      using b1 b(1) by (intro below_one_stays) simp_all
    then show ?thesis by (simp add: cell_at_next [OF c])
  qed
  then have c0: "count_frozen (next_lattice ?X) = 0"
    by (simp add: count_frozen_def filter_empty_conv)
  have e: "\<not> ends_missing (next_lattice ?X)"
    by (simp add: ends_missing_keys keys_init branch_ends_def branch_end_list_def in_hexagon_def)
  have "set (branch_ends 2) \<subseteq> set (keys ?X)"
    by (simp add: keys_init branch_ends_def branch_end_list_def in_hexagon_def)
  then have "frozen_ends (next_lattice ?X) = 0"
    using none by (auto simp: frozen_ends_def filter_empty_conv)
  then have "all_ends_frozen (next_lattice ?X) = Exited [Print 0 b 0, SaveImage b 0]"
    using e c0 by (simp add: stall_branch)
  with d c0 show ?thesis by (simp add: count_after_def detector_after_def)
qed

text \<open>
  C1 (the code differs): the stall condition is meant to compare the frozen count with
  the count of the preceding call, but \<^verbatim>\<open>frozen_list\<close> is built anew in every call, so
  the count is compared with \<^verbatim>\<open>0\<close>. With \<^verbatim>\<open>alpha = 0\<close> and \<^verbatim>\<open>gamma = 0\<close>, on a lattice of size at
  least 2 with \<^verbatim>\<open>beta < 1\<close>, and \<open>6 * beta\<close> no less than the most negative double (so that no
  sum of neighbours' \<open>u\<close> overflows), no state ever changes: at every call, before the first
  step and after any number of steps, the detector sees one frozen cell, the same count as
  at the call before, and returns \<^verbatim>\<open>False\<close>. The unchanged count never stops the run.
\<close>

theorem stall_never_reported:
  assumes "2 \<le> n" "b < 1" "- max_float \<le> 6 * b"
  shows "count_after k (CrystalLattice_init n 0 b 0) = Returned 1
         \<and> detector_after k (CrystalLattice_init n 0 b 0) = Returned False"
proof -
  from still_steps [OF assms, of k] obtain L where
    L: "steps k (CrystalLattice_init n 0 b 0) = Returned L" "still n b L" by blast
  have "0 \<le> n" using assms(1) by simp
  with L(2) have "count_frozen L = 1" using assms(2) by (rule still_count)
  moreover have "all_ends_frozen L = Returned False" using L(2) assms(1,2) by (rule still_quiet)
  ultimately show ?thesis by (simp add: count_after_def detector_after_def L(1))
qed

theorem stall_never_reported_witness:
  "(2::int) \<le> 2 \<and> (1/2::real) < 1 \<and> - max_float \<le> 6 * (1/2)
   \<and> count_after 0 (CrystalLattice_init 2 0 (1/2) 0) = Returned 1
   \<and> detector_after 0 (CrystalLattice_init 2 0 (1/2) 0) = Returned False
   \<and> count_after 1 (CrystalLattice_init 2 0 (1/2) 0) = Returned 1
   \<and> detector_after 1 (CrystalLattice_init 2 0 (1/2) 0) = Returned False"
proof -
  have p: "(2::int) \<le> 2" "(1/2::real) < 1" "- max_float \<le> 6 * (1/2)"
    using max_float_ge by simp_all
  from stall_never_reported [OF p, of 0] stall_never_reported [OF p, of 1] p
  show ?thesis by (intro conjI) simp_all
qed

end
